theory Spec2Isabelle
  imports Main
begin

section \<open>Python strings\<close>

text \<open>
  A Python \<open>str\<close> is modelled as a \<open>string\<close>; the few characters of the source beyond
  ASCII (the dashes and the ellipsis of \<open>_PUNCT\<close>) are written as their UTF-8 bytes.
  Case conversion is modelled on the ASCII letters.
\<close>

definition endswith :: "string \<Rightarrow> string \<Rightarrow> bool" where
  "endswith w s = (length s \<le> length w \<and> drop (length w - length s) w = s)"

definition startswith :: "string \<Rightarrow> string \<Rightarrow> bool" where
  "startswith w s = (take (length s) w = s)"

fun is_substr :: "string \<Rightarrow> string \<Rightarrow> bool" where
  "is_substr s [] = (s = [])"
| "is_substr s (c # cs) = (startswith (c # cs) s \<or> is_substr s cs)"

datatype py_error = ValueError string | IndexError | KeyError string

text \<open>
  \<open>str.split()\<close> without arguments: the maximal runs of characters that are not
  whitespace. The whitespace characters are those of ASCII for which \<open>str.isspace\<close>
  holds: tab, line feed, vertical tab, form feed, carriage return, the four separators
  \<open>0x1C\<close> to \<open>0x1F\<close> and the space.
\<close>

definition is_space :: "char \<Rightarrow> bool" where
  "is_space c = (c \<in> {CHR 0x09, CHR 0x0A, CHR 0x0B, CHR 0x0C, CHR 0x0D,
                        CHR 0x1C, CHR 0x1D, CHR 0x1E, CHR 0x1F, CHR '' ''})"

fun split_ws :: "string \<Rightarrow> string \<Rightarrow> string list" where
  "split_ws cur [] = (if cur = [] then [] else [cur])"
| "split_ws cur (c # cs) =
     (if is_space c then (if cur = [] then split_ws [] cs else cur # split_ws [] cs)
      else split_ws (cur @ [c]) cs)"

definition py_split :: "string \<Rightarrow> string list" where
  "py_split s = split_ws [] s"

section \<open>Simple inflection helper\<close>

text \<open>The regular expression \<open>[aeiou][^aeiouywx]$\<close> matched at the start of a string.\<close>

definition re_vowel_consonant :: "string \<Rightarrow> bool" where
  "re_vowel_consonant s =
     (case s of
        [a, b] \<Rightarrow> a \<in> set ''aeiou'' \<and> b \<notin> set ''aeiouywx''
      | [a, b, c] \<Rightarrow> a \<in> set ''aeiou'' \<and> b \<notin> set ''aeiouywx'' \<and> c = CHR 0x0A
      | _ \<Rightarrow> False)"

definition to_gerund :: "string \<Rightarrow> string" where
  "to_gerund word =
     (if endswith word ''ie'' then take (length word - 2) word @ ''ying''
      else if endswith word ''e'' \<and> \<not> endswith word ''ee''
        then take (length word - 1) word @ ''ing''
      else if length word > 2 \<and> re_vowel_consonant (drop (length word - 2) word)
        then word @ ''ing''
      else word @ ''ing'')"

section \<open>LTL skeletons\<close>

text \<open>
  An entry of \<open>LTL_TEMPLATES_STATE\<close> is a key, an arity and the function from the list
  \<open>P\<close> of atoms (or of labels) to the formula's tokens. The functions read
  \<open>P[0]\<close> to \<open>P[arity - 1]\<close>; \<open>call_skeleton\<close> raises the \<open>IndexError\<close> of a
  shorter list.
\<close>

type_synonym skeleton = "string \<times> nat \<times> (string list \<Rightarrow> string list)"

definition BASE_LTL_TEMPLATES_STATE :: "skeleton list" where
  "BASE_LTL_TEMPLATES_STATE =
   [(''F_NOT'', 1, \<lambda>P. [''finally'', ''('', ''not'', P ! 0, '')'']),
    (''G_NOT'', 1, \<lambda>P. [''globally'', ''('', ''not'', P ! 0, '')'']),
    (''F_AND'', 2, \<lambda>P. [''finally'', ''('', P ! 0, ''and'', P ! 1, '')'']),
    (''G_AND'', 2, \<lambda>P. [''globally'', ''('', P ! 0, ''and'', P ! 1, '')'']),
    (''F_OR'', 2, \<lambda>P. [''finally'', ''('', P ! 0, ''or'', P ! 1, '')'']),
    (''G_OR'', 2, \<lambda>P. [''globally'', ''('', P ! 0, ''or'', P ! 1, '')'']),
    (''X'', 1, \<lambda>P. [''next'', P ! 0]),
    (''U'', 2, \<lambda>P. [''('', P ! 0, ''until'', P ! 1, '')''])]"

definition ADDITIONAL_LTL_TEMPLATES_STATE :: "skeleton list" where
  "ADDITIONAL_LTL_TEMPLATES_STATE =
   [(''G_IMPL_F'', 2, \<lambda>P. py_split
       (''globally ( '' @ P ! 0 @ '' implies finally '' @ P ! 1 @ '' )'')),
    (''G_NOT_AND'', 2, \<lambda>P. py_split
       (''globally ( not ( '' @ P ! 0 @ '' and '' @ P ! 1 @ '' ) )'')),
    (''G_IMPL_XXX'', 2, \<lambda>P. py_split
       (''globally ( '' @ P ! 0 @ '' implies next ( next ( next '' @ P ! 1 @ '' ) ) )'')),
    (''U_GF'', 2, \<lambda>P. py_split
       (P ! 0 @ '' until ( globally ( finally '' @ P ! 1 @ '' ) )'')),
    (''F_B_IMPL_A_BEFORE'', 2, \<lambda>P. py_split
       (''( finally '' @ P ! 1 @ '' ) implies ( not '' @ P ! 1 @ '' until ( '' @ P ! 0
        @ '' and not '' @ P ! 1 @ '' ) )'')),
    (''G_IMPL'', 2, \<lambda>P. py_split
       (''globally ( '' @ P ! 0 @ '' implies '' @ P ! 1 @ '' )'')),
    (''G_AND_PAIR'', 2, \<lambda>P. py_split
       (''globally ( '' @ P ! 0 @ '' and '' @ P ! 1 @ '' )'')),
    (''G_A_AND_G_B_IMPL_NOT_C'', 3, \<lambda>P. py_split
       (''globally '' @ P ! 0 @ '' and globally ( '' @ P ! 1 @ '' implies not '' @ P ! 2
        @ '' )'')),
    (''G_IMPL_F_IMPL_GF'', 3, \<lambda>P. py_split
       (''globally ( '' @ P ! 0 @ '' implies finally '' @ P ! 1
        @ '' ) implies globally finally '' @ P ! 2)),
    (''GF_IMPL_GF'', 2, \<lambda>P. py_split
       (''globally finally '' @ P ! 0 @ '' implies globally finally '' @ P ! 1)),
    (''GF_OR_GF'', 2, \<lambda>P. py_split
       (''globally finally '' @ P ! 0 @ '' or globally finally '' @ P ! 1)),
    (''FG_NOT'', 1, \<lambda>P. py_split (''finally globally not '' @ P ! 0)),
    (''G_NOT_AND_IMPL_F'', 3, \<lambda>P. py_split
       (''globally ( not ( '' @ P ! 0 @ '' and '' @ P ! 1 @ '' ) implies finally '' @ P ! 2
        @ '' )'')),
    (''EXCLUSIVE_ALWAYS_ONE'', 2, \<lambda>P. py_split
       (''globally ( not ( '' @ P ! 0 @ '' and '' @ P ! 1 @ '' ) ) and globally ( '' @ P ! 0
        @ '' or '' @ P ! 1 @ '' )'')),
    (''G_EQ_IMPL_EQ'', 3, \<lambda>P. py_split
       (''globally ( ( '' @ P ! 0 @ '' double_implies '' @ P ! 1 @ '' ) implies ( '' @ P ! 1
        @ '' double_implies '' @ P ! 2 @ '' ) )'')),
    (''NOT_A_UNTIL_B'', 2, \<lambda>P. py_split (''not '' @ P ! 0 @ '' until '' @ P ! 1)),
    (''G_A_IMPL_XG_NOT_B'', 2, \<lambda>P. py_split
       (''globally ( '' @ P ! 0 @ '' implies next globally not '' @ P ! 1 @ '' )'')),
    (''A_RELEASES_B'', 2, \<lambda>P. py_split
       (''( '' @ P ! 1 @ '' until ( '' @ P ! 1 @ '' and not '' @ P ! 0 @ '' ) ) or globally ''
        @ P ! 1)),
    (''G_NOT_AND_ALT'', 2, \<lambda>P. py_split
       (''globally not ( '' @ P ! 0 @ '' and '' @ P ! 1 @ '' )'')),
    (''TWO_STEP_TRIGGER'', 3, \<lambda>P. py_split
       (''globally ( '' @ P ! 0 @ '' and next '' @ P ! 1 @ '' implies next next '' @ P ! 2
        @ '' )'')),
    (''NEXT_EVENTUAL'', 2, \<lambda>P. py_split
       (''globally ( '' @ P ! 0 @ '' implies next finally '' @ P ! 1 @ '' )'')),
    (''EVERY_FIFTH_STEP'', 1, \<lambda>P. py_split
       (P ! 0 @ '' and '' @ ''globally ( ''
        @ P ! 0 @ '' implies next not '' @ P ! 0 @ '' and next next not '' @ P ! 0 @ '' and ''
        @ ''next next next not '' @ P ! 0 @ '' and next next next next not '' @ P ! 0
        @ '' and '' @ ''next next next next next '' @ P ! 0 @ '' )'')),
    (''GF_A_OR_NEXT_B'', 2, \<lambda>P. py_split
       (''globally finally '' @ P ! 0 @ '' or next '' @ P ! 1)),
    (''G_ALWAYS_A'', 1, \<lambda>P. py_split (''globally '' @ P ! 0)),
    (''A_IMPL_B_WITHIN_1'', 2, \<lambda>P. py_split
       (''globally ( '' @ P ! 0 @ '' implies ( '' @ P ! 1 @ '' or next '' @ P ! 1 @ '' ) )'')),
    (''G_ONE_OF_ABC'', 3, \<lambda>P. py_split
       (''globally ( '' @ P ! 0 @ '' or '' @ P ! 1 @ '' or '' @ P ! 2 @ '' )'')),
    (''A_IMPL_EVENTUAL_B'', 2, \<lambda>P. py_split
       (''globally ( '' @ P ! 0 @ '' implies finally '' @ P ! 1 @ '' )'')),
    (''ALMOST_ALWAYS_A'', 1, \<lambda>P. py_split
       (''not globally ( not ( '' @ P ! 0 @ '' and next '' @ P ! 0 @ '' ) )'')),
    (''NOT_A_AT_MOST_TWO'', 1, \<lambda>P. py_split
       (''not globally ( not ( '' @ P ! 0 @ '' and next '' @ P ! 0 @ '' ) )'')),
    (''A_EVERY_THIRD_STEP'', 1, \<lambda>P. py_split
       (''globally ( '' @ P ! 0 @ '' implies ( next not '' @ P ! 0 @ '' or next next not ''
        @ P ! 0 @ '' or next next next '' @ P ! 0 @ '' ) )'')),
    (''NEXT_FOLLOW'', 2, \<lambda>P. py_split
       (''globally ( '' @ P ! 0 @ '' implies next '' @ P ! 1 @ '' )'')),
    (''EVENTUALLY_BOTH'', 2, \<lambda>P. py_split
       (''finally ( '' @ P ! 0 @ '' and '' @ P ! 1 @ '' )'')),
    (''BOTH_EVENTUAL'', 2, \<lambda>P. py_split
       (''finally '' @ P ! 0 @ '' and finally '' @ P ! 1)),
    (''STEPWISE_EQUALITY'', 2, \<lambda>P. py_split
       (''globally ( '' @ P ! 0 @ '' double_implies next '' @ P ! 1 @ '' )'')),
    (''RESPONSE_UNTIL_OR_ALWAYS'', 3, \<lambda>P. py_split
       (P ! 1 @ '' implies next ( ( '' @ P ! 2 @ '' until '' @ P ! 0 @ '' ) or globally ''
        @ P ! 2 @ '' )'')),
    (''UNTIL_OR_ALWAYS'', 2, \<lambda>P. py_split
       (''( '' @ P ! 0 @ '' until '' @ P ! 1 @ '' ) or globally '' @ P ! 0))]"

text \<open>The catalog after \<open>LTL_TEMPLATES_STATE.extend(ADDITIONAL_LTL_TEMPLATES_STATE)\<close>.\<close>

definition LTL_TEMPLATES_STATE :: "skeleton list" where
  "LTL_TEMPLATES_STATE = BASE_LTL_TEMPLATES_STATE @ ADDITIONAL_LTL_TEMPLATES_STATE"

definition call_skeleton :: "skeleton \<Rightarrow> string list \<Rightarrow> py_error + string list" where
  "call_skeleton tpl P =
     (case tpl of (key, need, f) \<Rightarrow> if length P < need then Inl IndexError else Inr (f P))"

section \<open>Trace builders\<close>

text \<open>
  A trace is a list of moments, a moment the list of the atoms true in it. An entry of
  \<open>_TRACE_BUILDERS\<close> is a key, the number of leading labels its function reads, and
  the function from the labels and the flag \<open>good\<close> to a trace.
\<close>

type_synonym trace = "string list list"

definition trace_for_NOT :: "string \<Rightarrow> bool \<Rightarrow> trace" where
  "trace_for_NOT p good = (if good then [[]] else [[p]])"

definition trace_for_F_NOT :: "string \<Rightarrow> bool \<Rightarrow> trace" where
  "trace_for_F_NOT p good = (if good then [[p], [], []] else replicate 3 [p])"

definition trace_for_G_NOT :: "string \<Rightarrow> bool \<Rightarrow> trace" where
  "trace_for_G_NOT p good = (if good then replicate 3 [] else [[p]] @ replicate 2 [])"

definition trace_for_X :: "string \<Rightarrow> bool \<Rightarrow> trace" where
  "trace_for_X p good = (if good then [[], [p]] else [[p]])"

definition trace_for_NOT_A_UNTIL_B :: "string \<Rightarrow> string \<Rightarrow> bool \<Rightarrow> trace" where
  "trace_for_NOT_A_UNTIL_B a b good = (if good then [[], [], [b]] else replicate 3 [a])"

definition trace_for_F_AND :: "string \<Rightarrow> string \<Rightarrow> bool \<Rightarrow> trace" where
  "trace_for_F_AND p q good = (if good then [[], [p], [p, q]] else [[], [p], []])"

definition trace_for_G_AND :: "string \<Rightarrow> string \<Rightarrow> bool \<Rightarrow> trace" where
  "trace_for_G_AND p q good = (if good then replicate 3 [p, q] else [[p], [p], [q]])"

definition trace_for_F_OR :: "string \<Rightarrow> string \<Rightarrow> bool \<Rightarrow> trace" where
  "trace_for_F_OR p q good = (if good then [[], [p]] else replicate 3 [])"

definition trace_for_G_OR :: "string \<Rightarrow> string \<Rightarrow> bool \<Rightarrow> trace" where
  "trace_for_G_OR p q good = (if good then [[p], [q], [p]] else [[p], [], []])"

definition trace_for_AND :: "string \<Rightarrow> string \<Rightarrow> bool \<Rightarrow> trace" where
  "trace_for_AND p q good = (if good then [[p, q]] else [[p]])"

definition trace_for_OR :: "string \<Rightarrow> string \<Rightarrow> bool \<Rightarrow> trace" where
  "trace_for_OR p q good = (if good then [[p]] else [[]])"

type_synonym trace_builder = "string \<times> nat \<times> (string list \<Rightarrow> bool \<Rightarrow> trace)"

definition BASE_TRACE_BUILDERS :: "trace_builder list" where
  "BASE_TRACE_BUILDERS =
   [(''NOT'', 1, \<lambda>L g. trace_for_NOT (L ! 0) g),
    (''F_NOT'', 1, \<lambda>L g. trace_for_F_NOT (L ! 0) g),
    (''G_NOT'', 1, \<lambda>L g. trace_for_G_NOT (L ! 0) g),
    (''X'', 1, \<lambda>L g. trace_for_X (L ! 0) g),
    (''NOT_A_UNTIL_B'', 2, \<lambda>L g. trace_for_NOT_A_UNTIL_B (L ! 0) (L ! 1) g),
    (''F_AND'', 2, \<lambda>L g. trace_for_F_AND (L ! 0) (L ! 1) g),
    (''G_AND'', 2, \<lambda>L g. trace_for_G_AND (L ! 0) (L ! 1) g),
    (''F_OR'', 2, \<lambda>L g. trace_for_F_OR (L ! 0) (L ! 1) g),
    (''G_OR'', 2, \<lambda>L g. trace_for_G_OR (L ! 0) (L ! 1) g),
    (''AND'', 2, \<lambda>L g. trace_for_AND (L ! 0) (L ! 1) g),
    (''OR'', 2, \<lambda>L g. trace_for_OR (L ! 0) (L ! 1) g)]"

definition G_NOT_AND_traces :: "string list \<Rightarrow> bool \<Rightarrow> trace" where
  "G_NOT_AND_traces L g = (if g then [[L ! 0], [L ! 1], []] else [[L ! 0, L ! 1]])"

definition ADDITIONAL_TRACE_BUILDERS :: "trace_builder list" where
  "ADDITIONAL_TRACE_BUILDERS =
   [(''G_IMPL_F'', 2, \<lambda>L g. if g then [[L ! 0], [], [L ! 1]] else [[L ! 0], [], []]),
    (''G_NOT_AND'', 2, G_NOT_AND_traces),
    (''G_IMPL_XXX'', 2, \<lambda>L g.
       if g then [[L ! 0], [], [], [L ! 1]] else [[L ! 0], [], [], []]),
    (''U_GF'', 2, \<lambda>L g. if g then [[L ! 0], [L ! 0], [L ! 1]] else replicate 3 [L ! 0]),
    (''F_B_IMPL_A_BEFORE'', 2, \<lambda>L g. if g then [[L ! 0], [L ! 1]] else [[L ! 1]]),
    (''G_IMPL'', 2, \<lambda>L g. if g then [[L ! 0, L ! 1], [L ! 1]] else [[L ! 0], []]),
    (''G_AND_PAIR'', 2, \<lambda>L g. if g then [[L ! 0, L ! 1]] else [[L ! 0], []]),
    (''G_A_AND_G_B_IMPL_NOT_C'', 3, \<lambda>L g.
       if g then [[L ! 0], [L ! 0, L ! 1], [L ! 0]] else [[L ! 0, L ! 2]]),
    (''G_IMPL_F_IMPL_GF'', 3, \<lambda>L g.
       if g then [[L ! 0], [L ! 1, L ! 2]] else [[L ! 0], [L ! 1]]),
    (''GF_IMPL_GF'', 1, \<lambda>L g. if g then [[]] else [[L ! 0]]),
    (''GF_OR_GF'', 1, \<lambda>L g. if g then [[L ! 0]] else [[]]),
    (''FG_NOT'', 1, \<lambda>L g. if g then [[L ! 0], [], []] else [[L ! 0], [], [L ! 0]]),
    (''G_NOT_AND_IMPL_F'', 2, \<lambda>L g. if g then [[L ! 0, L ! 1]] else [[]]),
    (''EXCLUSIVE_ALWAYS_ONE'', 2, \<lambda>L g.
       if g then [[L ! 0], [L ! 1], [L ! 0]] else [[], []]),
    (''G_EQ_IMPL_EQ'', 3, \<lambda>L g. if g then [[L ! 0, L ! 1, L ! 2]] else [[L ! 0, L ! 1]]),
    (''G_A_IMPL_XG_NOT_B'', 2, \<lambda>L g.
       if g then [[L ! 0], [], []] else [[L ! 0], [], [L ! 1]]),
    (''A_RELEASES_B'', 2, \<lambda>L g. if g then [[L ! 1]] else [[L ! 1], []]),
    (''G_NOT_AND_ALT'', 2, \<lambda>L g. G_NOT_AND_traces L g),
    (''TWO_STEP_TRIGGER'', 3, \<lambda>L g.
       if g then [[L ! 0], [L ! 1], [L ! 2]] else [[L ! 0], [L ! 1], []]),
    (''NEXT_EVENTUAL'', 2, \<lambda>L g. if g then [[L ! 0], [], [L ! 1]] else [[L ! 0], [], []]),
    (''EVERY_FIFTH_STEP'', 1, \<lambda>L g.
       if g then [[L ! 0], [], [], [], [], [L ! 0]] else [[L ! 0], [], [], [L ! 0]]),
    (''GF_A_OR_NEXT_B'', 1, \<lambda>L g. if g then [[L ! 0]] else [[], []]),
    (''G_ALWAYS_A'', 1, \<lambda>L g. if g then [[L ! 0]] else [[L ! 0], []]),
    (''A_IMPL_B_WITHIN_1'', 2, \<lambda>L g. if g then [[L ! 0, L ! 1]] else [[L ! 0], []]),
    (''G_ONE_OF_ABC'', 3, \<lambda>L g. if g then [[L ! 0], [L ! 1], [L ! 2]] else [[]]),
    (''A_IMPL_EVENTUAL_B'', 2, \<lambda>L g.
       if g then [[L ! 0], [], [L ! 1]] else [[L ! 0], [], []]),
    (''ALMOST_ALWAYS_A'', 1, \<lambda>L g.
       if g then [[L ! 0], [], [L ! 0]] else [[L ! 0], [], [], []]),
    (''NOT_A_AT_MOST_TWO'', 1, \<lambda>L g.
       if g then [[L ! 0], [], [], [L ! 0]] else [[L ! 0], [], [], [], [L ! 0]]),
    (''A_EVERY_THIRD_STEP'', 1, \<lambda>L g.
       if g then [[L ! 0], [], [], [L ! 0]] else [[L ! 0], [], [L ! 0]]),
    (''NEXT_FOLLOW'', 2, \<lambda>L g. if g then [[L ! 0], [L ! 1]] else [[L ! 0], []]),
    (''EVENTUALLY_BOTH'', 2, \<lambda>L g. if g then [[L ! 0, L ! 1]] else [[], [], []]),
    (''BOTH_EVENTUAL'', 2, \<lambda>L g. if g then [[L ! 0], [L ! 1]] else [[], [], []]),
    (''STEPWISE_EQUALITY'', 2, \<lambda>L g. if g then [[L ! 0], [L ! 1]] else [[L ! 0], []]),
    (''RESPONSE_UNTIL_OR_ALWAYS'', 3, \<lambda>L g.
       if g then [[L ! 1], [L ! 2], [L ! 2], [L ! 0]] else [[L ! 1], []]),
    (''UNTIL_OR_ALWAYS'', 2, \<lambda>L g.
       if g then [[L ! 0], [L ! 0], [L ! 1]] else [[], []])]"

text \<open>The table after \<open>_TRACE_BUILDERS.update(...)\<close>; no key of the update is a key before it.\<close>

definition TRACE_BUILDERS :: "trace_builder list" where
  "TRACE_BUILDERS = BASE_TRACE_BUILDERS @ ADDITIONAL_TRACE_BUILDERS"

definition make_traces :: "string \<Rightarrow> string list \<Rightarrow> py_error + trace \<times> trace" where
  "make_traces key labels =
     (case map_of TRACE_BUILDERS key of
        Some (reads, f) \<Rightarrow>
          if length labels < reads then Inl IndexError
          else Inr (f labels True, f labels False)
      | None \<Rightarrow> Inr ([labels], replicate 3 []))"

section \<open>Linear temporal logic over traces\<close>

datatype 'a ltl =
    LAtom 'a
  | LNot "'a ltl"
  | LAnd "'a ltl" "'a ltl"
  | LOr "'a ltl" "'a ltl"
  | LImplies "'a ltl" "'a ltl"
  | LIff "'a ltl" "'a ltl"
  | LNext "'a ltl"
  | LFinally "'a ltl"
  | LGlobally "'a ltl"
  | LUntil "'a ltl" "'a ltl"

text \<open>
  The semantics of a formula on an infinite word, a function from the moments' indices
  to the sets of atoms true there.
\<close>

fun holds :: "(nat \<Rightarrow> 'a set) \<Rightarrow> nat \<Rightarrow> 'a ltl \<Rightarrow> bool" where
  "holds w i (LAtom a) = (a \<in> w i)"
| "holds w i (LNot f) = (\<not> holds w i f)"
| "holds w i (LAnd f g) = (holds w i f \<and> holds w i g)"
| "holds w i (LOr f g) = (holds w i f \<or> holds w i g)"
| "holds w i (LImplies f g) = (holds w i f \<longrightarrow> holds w i g)"
| "holds w i (LIff f g) = (holds w i f = holds w i g)"
| "holds w i (LNext f) = holds w (Suc i) f"
| "holds w i (LFinally f) = (\<exists>j\<ge>i. holds w j f)"
| "holds w i (LGlobally f) = (\<forall>j\<ge>i. holds w j f)"
| "holds w i (LUntil f g) = (\<exists>j\<ge>i. holds w j g \<and> (\<forall>k. i \<le> k \<and> k < j \<longrightarrow> holds w k f))"

text \<open>
  A trace stands for the infinite word that repeats its last moment forever; an atom
  absent from a moment is false there. A trace satisfies a formula when the formula holds
  at the initial moment of that word.
\<close>

definition moment :: "'a list list \<Rightarrow> nat \<Rightarrow> 'a set" where
  "moment tr i = set (tr ! min i (length tr - 1))"

definition satisfies :: "'a list list \<Rightarrow> 'a ltl \<Rightarrow> bool" where
  "satisfies tr f = (tr \<noteq> [] \<and> holds (moment tr) 0 f)"

text \<open>
  The same semantics computed on the positions of the trace itself: the successor of the
  last position is the last position.
\<close>

fun eval_at :: "'a list list \<Rightarrow> nat \<Rightarrow> 'a ltl \<Rightarrow> bool" where
  "eval_at tr i (LAtom a) = (a \<in> set (tr ! i))"
| "eval_at tr i (LNot f) = (\<not> eval_at tr i f)"
| "eval_at tr i (LAnd f g) = (eval_at tr i f \<and> eval_at tr i g)"
| "eval_at tr i (LOr f g) = (eval_at tr i f \<or> eval_at tr i g)"
| "eval_at tr i (LImplies f g) = (eval_at tr i f \<longrightarrow> eval_at tr i g)"
| "eval_at tr i (LIff f g) = (eval_at tr i f = eval_at tr i g)"
| "eval_at tr i (LNext f) = eval_at tr (min (Suc i) (length tr - 1)) f"
| "eval_at tr i (LFinally f) = list_ex (\<lambda>j. eval_at tr j f) [i..<length tr]"
| "eval_at tr i (LGlobally f) = list_all (\<lambda>j. eval_at tr j f) [i..<length tr]"
| "eval_at tr i (LUntil f g) =
     list_ex (\<lambda>j. eval_at tr j g \<and> list_all (\<lambda>k. eval_at tr k f) [i..<j]) [i..<length tr]"

text \<open>
  The formula of each skeleton of the catalog, read from its tokens: the unary operators
  bind tightest, then \<open>until\<close>, \<open>and\<close>, \<open>or\<close>, \<open>implies\<close>; this is the reading
  that the comment in front of each trace builder gives.
\<close>

definition SKELETON_FORMULAS :: "(string \<times> (string list \<Rightarrow> string ltl)) list" where
  "SKELETON_FORMULAS =
   [(''F_NOT'', \<lambda>P. LFinally (LNot (LAtom (P ! 0)))),
    (''G_NOT'', \<lambda>P. LGlobally (LNot (LAtom (P ! 0)))),
    (''F_AND'', \<lambda>P. LFinally (LAnd (LAtom (P ! 0)) (LAtom (P ! 1)))),
    (''G_AND'', \<lambda>P. LGlobally (LAnd (LAtom (P ! 0)) (LAtom (P ! 1)))),
    (''F_OR'', \<lambda>P. LFinally (LOr (LAtom (P ! 0)) (LAtom (P ! 1)))),
    (''G_OR'', \<lambda>P. LGlobally (LOr (LAtom (P ! 0)) (LAtom (P ! 1)))),
    (''X'', \<lambda>P. LNext (LAtom (P ! 0))),
    (''U'', \<lambda>P. LUntil (LAtom (P ! 0)) (LAtom (P ! 1))),
    (''G_IMPL_F'', \<lambda>P. LGlobally (LImplies (LAtom (P ! 0)) (LFinally (LAtom (P ! 1))))),
    (''G_NOT_AND'', \<lambda>P. LGlobally (LNot (LAnd (LAtom (P ! 0)) (LAtom (P ! 1))))),
    (''G_IMPL_XXX'', \<lambda>P.
       LGlobally (LImplies (LAtom (P ! 0)) (LNext (LNext (LNext (LAtom (P ! 1))))))),
    (''U_GF'', \<lambda>P. LUntil (LAtom (P ! 0)) (LGlobally (LFinally (LAtom (P ! 1))))),
    (''F_B_IMPL_A_BEFORE'', \<lambda>P.
       LImplies (LFinally (LAtom (P ! 1)))
         (LUntil (LNot (LAtom (P ! 1))) (LAnd (LAtom (P ! 0)) (LNot (LAtom (P ! 1)))))),
    (''G_IMPL'', \<lambda>P. LGlobally (LImplies (LAtom (P ! 0)) (LAtom (P ! 1)))),
    (''G_AND_PAIR'', \<lambda>P. LGlobally (LAnd (LAtom (P ! 0)) (LAtom (P ! 1)))),
    (''G_A_AND_G_B_IMPL_NOT_C'', \<lambda>P.
       LAnd (LGlobally (LAtom (P ! 0)))
         (LGlobally (LImplies (LAtom (P ! 1)) (LNot (LAtom (P ! 2)))))),
    (''G_IMPL_F_IMPL_GF'', \<lambda>P.
       LImplies (LGlobally (LImplies (LAtom (P ! 0)) (LFinally (LAtom (P ! 1)))))
         (LGlobally (LFinally (LAtom (P ! 2))))),
    (''GF_IMPL_GF'', \<lambda>P.
       LImplies (LGlobally (LFinally (LAtom (P ! 0)))) (LGlobally (LFinally (LAtom (P ! 1))))),
    (''GF_OR_GF'', \<lambda>P.
       LOr (LGlobally (LFinally (LAtom (P ! 0)))) (LGlobally (LFinally (LAtom (P ! 1))))),
    (''FG_NOT'', \<lambda>P. LFinally (LGlobally (LNot (LAtom (P ! 0))))),
    (''G_NOT_AND_IMPL_F'', \<lambda>P.
       LGlobally (LImplies (LNot (LAnd (LAtom (P ! 0)) (LAtom (P ! 1))))
         (LFinally (LAtom (P ! 2))))),
    (''EXCLUSIVE_ALWAYS_ONE'', \<lambda>P.
       LAnd (LGlobally (LNot (LAnd (LAtom (P ! 0)) (LAtom (P ! 1)))))
         (LGlobally (LOr (LAtom (P ! 0)) (LAtom (P ! 1))))),
    (''G_EQ_IMPL_EQ'', \<lambda>P.
       LGlobally (LImplies (LIff (LAtom (P ! 0)) (LAtom (P ! 1)))
         (LIff (LAtom (P ! 1)) (LAtom (P ! 2))))),
    (''NOT_A_UNTIL_B'', \<lambda>P. LUntil (LNot (LAtom (P ! 0))) (LAtom (P ! 1))),
    (''G_A_IMPL_XG_NOT_B'', \<lambda>P.
       LGlobally (LImplies (LAtom (P ! 0)) (LNext (LGlobally (LNot (LAtom (P ! 1))))))),
    (''A_RELEASES_B'', \<lambda>P.
       LOr (LUntil (LAtom (P ! 1)) (LAnd (LAtom (P ! 1)) (LNot (LAtom (P ! 0)))))
         (LGlobally (LAtom (P ! 1)))),
    (''G_NOT_AND_ALT'', \<lambda>P. LGlobally (LNot (LAnd (LAtom (P ! 0)) (LAtom (P ! 1))))),
    (''TWO_STEP_TRIGGER'', \<lambda>P.
       LGlobally (LImplies (LAnd (LAtom (P ! 0)) (LNext (LAtom (P ! 1))))
         (LNext (LNext (LAtom (P ! 2)))))),
    (''NEXT_EVENTUAL'', \<lambda>P.
       LGlobally (LImplies (LAtom (P ! 0)) (LNext (LFinally (LAtom (P ! 1)))))),
    (''EVERY_FIFTH_STEP'', \<lambda>P.
       LAnd (LAtom (P ! 0))
         (LGlobally (LImplies (LAtom (P ! 0))
           (LAnd (LNext (LNot (LAtom (P ! 0))))
           (LAnd (LNext (LNext (LNot (LAtom (P ! 0)))))
           (LAnd (LNext (LNext (LNext (LNot (LAtom (P ! 0))))))
           (LAnd (LNext (LNext (LNext (LNext (LNot (LAtom (P ! 0)))))))
                 (LNext (LNext (LNext (LNext (LNext (LAtom (P ! 0)))))))))))))),
    (''GF_A_OR_NEXT_B'', \<lambda>P.
       LOr (LGlobally (LFinally (LAtom (P ! 0)))) (LNext (LAtom (P ! 1)))),
    (''G_ALWAYS_A'', \<lambda>P. LGlobally (LAtom (P ! 0))),
    (''A_IMPL_B_WITHIN_1'', \<lambda>P.
       LGlobally (LImplies (LAtom (P ! 0)) (LOr (LAtom (P ! 1)) (LNext (LAtom (P ! 1)))))),
    (''G_ONE_OF_ABC'', \<lambda>P.
       LGlobally (LOr (LAtom (P ! 0)) (LOr (LAtom (P ! 1)) (LAtom (P ! 2))))),
    (''A_IMPL_EVENTUAL_B'', \<lambda>P.
       LGlobally (LImplies (LAtom (P ! 0)) (LFinally (LAtom (P ! 1))))),
    (''ALMOST_ALWAYS_A'', \<lambda>P.
       LNot (LGlobally (LNot (LAnd (LAtom (P ! 0)) (LNext (LAtom (P ! 0))))))),
    (''NOT_A_AT_MOST_TWO'', \<lambda>P.
       LNot (LGlobally (LNot (LAnd (LAtom (P ! 0)) (LNext (LAtom (P ! 0))))))),
    (''A_EVERY_THIRD_STEP'', \<lambda>P.
       LGlobally (LImplies (LAtom (P ! 0))
         (LOr (LNext (LNot (LAtom (P ! 0))))
         (LOr (LNext (LNext (LNot (LAtom (P ! 0)))))
              (LNext (LNext (LNext (LAtom (P ! 0))))))))),
    (''NEXT_FOLLOW'', \<lambda>P. LGlobally (LImplies (LAtom (P ! 0)) (LNext (LAtom (P ! 1))))),
    (''EVENTUALLY_BOTH'', \<lambda>P. LFinally (LAnd (LAtom (P ! 0)) (LAtom (P ! 1)))),
    (''BOTH_EVENTUAL'', \<lambda>P. LAnd (LFinally (LAtom (P ! 0))) (LFinally (LAtom (P ! 1)))),
    (''STEPWISE_EQUALITY'', \<lambda>P. LGlobally (LIff (LAtom (P ! 0)) (LNext (LAtom (P ! 1))))),
    (''RESPONSE_UNTIL_OR_ALWAYS'', \<lambda>P.
       LImplies (LAtom (P ! 1))
         (LNext (LOr (LUntil (LAtom (P ! 2)) (LAtom (P ! 0))) (LGlobally (LAtom (P ! 2)))))),
    (''UNTIL_OR_ALWAYS'', \<lambda>P.
       LOr (LUntil (LAtom (P ! 0)) (LAtom (P ! 1))) (LGlobally (LAtom (P ! 0))))]"

text \<open>
  The tokens of a formula in the order they are written, without parentheses; the tokens
  of a skeleton with its parentheses removed are those of its formula
  (lemma \<open>skeleton_tokens_of_formula\<close>).
\<close>

fun flat_tokens :: "string ltl \<Rightarrow> string list" where
  "flat_tokens (LAtom a) = [a]"
| "flat_tokens (LNot f) = ''not'' # flat_tokens f"
| "flat_tokens (LAnd f g) = flat_tokens f @ ''and'' # flat_tokens g"
| "flat_tokens (LOr f g) = flat_tokens f @ ''or'' # flat_tokens g"
| "flat_tokens (LImplies f g) = flat_tokens f @ ''implies'' # flat_tokens g"
| "flat_tokens (LIff f g) = flat_tokens f @ ''double_implies'' # flat_tokens g"
| "flat_tokens (LNext f) = ''next'' # flat_tokens f"
| "flat_tokens (LFinally f) = ''finally'' # flat_tokens f"
| "flat_tokens (LGlobally f) = ''globally'' # flat_tokens f"
| "flat_tokens (LUntil f g) = flat_tokens f @ ''until'' # flat_tokens g"

text \<open>
  A pair of traces is consistent with a skeleton when the first trace satisfies the
  skeleton's formula on the given atoms and the second one does not.
\<close>

definition traces_consistent :: "string \<Rightarrow> string list \<Rightarrow> bool" where
  "traces_consistent key atoms =
     (case (map_of SKELETON_FORMULAS key, make_traces key atoms) of
        (Some formula, Inr (good, bad)) \<Rightarrow>
          satisfies good (formula atoms) \<and> \<not> satisfies bad (formula atoms)
      | _ \<Rightarrow> False)"

section \<open>More of Python's strings\<close>

definition py_lower_char :: "char \<Rightarrow> char" where
  "py_lower_char c =
     (case map_of (zip ''ABCDEFGHIJKLMNOPQRSTUVWXYZ'' ''abcdefghijklmnopqrstuvwxyz'') c of
        Some l \<Rightarrow> l | None \<Rightarrow> c)"

definition py_upper_char :: "char \<Rightarrow> char" where
  "py_upper_char c =
     (case map_of (zip ''abcdefghijklmnopqrstuvwxyz'' ''ABCDEFGHIJKLMNOPQRSTUVWXYZ'') c of
        Some u \<Rightarrow> u | None \<Rightarrow> c)"

definition py_lower :: "string \<Rightarrow> string" where
  "py_lower s = map py_lower_char s"

text \<open>\<open>str.capitalize\<close>: the first character in upper case, the others in lower case.\<close>

definition py_capitalize :: "string \<Rightarrow> string" where
  "py_capitalize s = (case s of [] \<Rightarrow> [] | c # cs \<Rightarrow> py_upper_char c # py_lower cs)"

text \<open>\<open>sep.join(xs)\<close>.\<close>

fun py_join :: "string \<Rightarrow> string list \<Rightarrow> string" where
  "py_join sep [] = []"
| "py_join sep [x] = x"
| "py_join sep (x # y # xs) = x @ sep @ py_join sep (y # xs)"

text \<open>The characters of \<open>string.punctuation\<close>, and \<open>s.rstrip(string.punctuation)\<close>.\<close>

definition string_punctuation :: string where
  "string_punctuation =
     ''!'' @ [CHR 0x22] @ ''#$%&'' @ [CHR 0x27] @ ''()*+,-./:;<=>?@['' @ [CHR 0x5C]
     @ '']^_'' @ [CHR 0x60] @ ''{|}~''"

definition rstrip_punctuation :: "string \<Rightarrow> string" where
  "rstrip_punctuation s = rev (dropWhile (\<lambda>c. c \<in> set string_punctuation) (rev s))"

text \<open>The decimal digits of a number, as \<open>f"{i}"\<close> writes them.\<close>

fun show_nat :: "nat \<Rightarrow> string" where
  "show_nat n =
     (if n < 10 then [''0123456789'' ! n]
      else show_nat (n div 10) @ [''0123456789'' ! (n mod 10)])"

declare show_nat.simps [simp del]

definition prop_token :: "nat \<Rightarrow> string" where
  "prop_token i = ''prop_'' @ show_nat i"

text \<open>
  \<open>_PLACEHOLDER_RE.match(tok)\<close> for the pattern \<open>^prop_\d+$\<close>: the prefix, then one or
  more digits, then the end of the string or a last line feed.
\<close>

definition is_digit :: "char \<Rightarrow> bool" where
  "is_digit c = (c \<in> set ''0123456789'')"

definition placeholder_match :: "string \<Rightarrow> bool" where
  "placeholder_match tok =
     (startswith tok ''prop_'' \<and>
      (let rest = drop 5 tok;
           ds = takeWhile is_digit rest;
           after = dropWhile is_digit rest
       in ds \<noteq> [] \<and> (after = [] \<or> after = [CHR 0x0A])))"

section \<open>The language services\<close>

text \<open>
  The tokenizer, the part-of-speech tagger, the lemmatizer and the detokenizer are
  services of NLTK; the generator is modelled over any four such functions.
  \<open>pos_tag(toks)\<close> returns the tokens paired with one tag each: \<open>tag_at toks i\<close> is the
  tag of the token at index \<open>i\<close> of the sentence \<open>toks\<close>. \<open>lemmatize_verb\<close> is
  \<open>_LEM.lemmatize(s, 'v')\<close>.
\<close>

record nlp =
  word_tokenize :: "string \<Rightarrow> string list"
  tag_at :: "string list \<Rightarrow> nat \<Rightarrow> string"
  lemmatize_verb :: "string \<Rightarrow> string"
  detokenize :: "string list \<Rightarrow> string"

definition pos_tag :: "nlp \<Rightarrow> string list \<Rightarrow> (string \<times> string) list" where
  "pos_tag svc toks = map (\<lambda>i. (toks ! i, tag_at svc toks i)) [0..<length toks]"

definition same_word :: "nlp \<Rightarrow> string \<Rightarrow> string \<Rightarrow> bool" where
  "same_word svc sent_tok targ_tok =
     (let s = py_lower (rstrip_punctuation sent_tok);
          t = py_lower targ_tok
      in s = t \<or> lemmatize_verb svc s = t)"

section \<open>Sentence utilities\<close>

definition REQUIRES_GERUND :: "string list" where
  "REQUIRES_GERUND =
     [''avoid'', ''keep'', ''stop'', ''start'', ''finish'', ''by'', ''while'', ''after'',
      ''before'', ''until'']"

text \<open>The em dash, the en dash and the ellipsis are written as their UTF-8 bytes.\<close>

definition PUNCT :: "string list" where
  "PUNCT =
     [''.'', '','', '';'', '':'', ''!'', ''?'', [CHR 0xE2, CHR 0x80, CHR 0x94], ''-'',
      [CHR 0xE2, CHR 0x80, CHR 0x93], [CHR 0xE2, CHR 0x80, CHR 0xA6]]"

definition VERB_LIKE_STARTS :: "string list" where
  "VERB_LIKE_STARTS =
     [''never'', ''avoid'', ''always'', ''grab'', ''ensure'', ''please'', ''eventually'',
      ''do'', ''keep'', ''ultimately'', ''make'']"

definition EGO_REFS :: "string list" where
  "EGO_REFS = [''The robot'', ''You'', ''Our agent'', ''The system'', ''This controller'']"

definition is_ascii_letter :: "char \<Rightarrow> bool" where
  "is_ascii_letter c =
     (c \<in> set ''abcdefghijklmnopqrstuvwxyzABCDEFGHIJKLMNOPQRSTUVWXYZ'')"

definition add_ego_reference :: "string \<Rightarrow> string \<Rightarrow> py_error + string" where
  "add_ego_reference sentence ego =
     (case py_split sentence of
        [] \<Rightarrow> Inl IndexError
      | w # _ \<Rightarrow>
          let first = py_lower (filter is_ascii_letter w)
          in if first \<in> set VERB_LIKE_STARTS then Inr (ego @ '' must '' @ sentence)
             else Inr sentence)"

text \<open>The inner loop of the gerund agreement: the first index from \<open>j\<close> on whose token is
  not in \<open>_PUNCT\<close>, or the number of tokens.\<close>

function skip_punct :: "(string \<times> string) list \<Rightarrow> nat \<Rightarrow> nat" where
  "skip_punct tags j =
     (if j < length tags \<and> fst (tags ! j) \<in> set PUNCT then skip_punct tags (j + 1) else j)"
  by pat_completeness auto
termination
  by (relation "measure (\<lambda>(tags, j). length tags - j)") auto

declare skip_punct.simps [simp del]

text \<open>One iteration of the outer loop, at the index \<open>i\<close>.\<close>

definition gerund_step :: "(string \<times> string) list \<Rightarrow> string list \<Rightarrow> nat \<Rightarrow> string list" where
  "gerund_step tags toks i =
     (if py_lower (fst (tags ! i)) \<in> set REQUIRES_GERUND then
        (let j = skip_punct tags (i + 1) in
         if j < length tags then
           (case tags ! j of (nxt_tok, nxt_tag) \<Rightarrow>
              if placeholder_match nxt_tok \<or> endswith (py_lower nxt_tok) ''ing'' then toks
              else if nxt_tag \<in> set [''VB'', ''VBP'', ''NN'', ''NNS'']
                then toks[j := to_gerund (py_lower nxt_tok)]
              else toks)
         else toks)
      else toks)"

function gerund_loop :: "(string \<times> string) list \<Rightarrow> nat \<Rightarrow> string list \<Rightarrow> string list" where
  "gerund_loop tags i toks =
     (if i + 1 < length tags then gerund_loop tags (i + 1) (gerund_step tags toks i)
      else toks)"
  by pat_completeness auto
termination
  by (relation "measure (\<lambda>(tags, i, toks). length tags - i)") auto

declare gerund_loop.simps [simp del]

definition gerund_agreement :: "nlp \<Rightarrow> string list \<Rightarrow> string list" where
  "gerund_agreement svc toks = gerund_loop (pos_tag svc toks) 0 toks"

text \<open>The capitalization after a sentence end reads the tokens of the copy \<open>toks[:-1]\<close>.\<close>

definition capitalize_after_end :: "string list \<Rightarrow> string list" where
  "capitalize_after_end toks =
     (let snapshot = butlast toks
      in foldl (\<lambda>ts k. if snapshot ! k \<in> set [''.'', ''!'', ''?'']
                        then ts[k + 1 := py_capitalize (ts ! (k + 1))] else ts)
           toks [0..<length snapshot])"

definition correct_sentence :: "nlp \<Rightarrow> string \<Rightarrow> string" where
  "correct_sentence svc sentence =
     (let toks = word_tokenize svc sentence;
          toks = gerund_agreement svc toks;
          toks = map (\<lambda>t. if t = ''i'' then ''I'' else t) toks;
          toks = (if toks \<noteq> [] then toks[0 := py_capitalize (toks ! 0)] else toks);
          toks = capitalize_after_end toks
      in detokenize svc toks)"

section \<open>Results and random choices\<close>

text \<open>
  A call that runs a loop which may not end has a result of type \<open>'a result\<close>:
  \<open>None\<close> when the call does not return, \<open>Some (Inl e)\<close> when it raises \<open>e\<close> and
  \<open>Some (Inr v)\<close> when it returns \<open>v\<close>. A call that always ends has a result of type
  \<open>py_error + 'a\<close>.
\<close>

type_synonym 'a result = "(py_error + 'a) option"

definition bind_error :: "py_error + 'a \<Rightarrow> ('a \<Rightarrow> py_error + 'b) \<Rightarrow> py_error + 'b" where
  "bind_error m f = (case m of Inl e \<Rightarrow> Inl e | Inr v \<Rightarrow> f v)"

definition bind_result :: "'a result \<Rightarrow> ('a \<Rightarrow> 'b result) \<Rightarrow> 'b result" where
  "bind_result m f = (case m of None \<Rightarrow> None | Some (Inl e) \<Rightarrow> Some (Inl e) | Some (Inr v) \<Rightarrow> f v)"

text \<open>A list comprehension whose element expression may raise: the first error wins.\<close>

fun map_error :: "('a \<Rightarrow> py_error + 'b) \<Rightarrow> 'a list \<Rightarrow> py_error + 'b list" where
  "map_error f [] = Inr []"
| "map_error f (x # xs) =
     (case f x of
        Inl e \<Rightarrow> Inl e
      | Inr y \<Rightarrow> (case map_error f xs of Inl e \<Rightarrow> Inl e | Inr ys \<Rightarrow> Inr (y # ys)))"

text \<open>
  The process-wide random number stream is an infinite sequence of numbers, of which
  every draw consumes the first one. \<open>random.choice\<close> raises \<open>IndexError\<close> on an empty
  list; \<open>random.randint\<close> raises \<open>ValueError\<close> on an empty range; \<open>random.sample\<close>
  draws without replacement and raises \<open>ValueError\<close> when the population is too small;
  \<open>random.random() < 0.5\<close> is a coin.
\<close>

type_synonym rng = "nat \<Rightarrow> nat"

definition rest :: "rng \<Rightarrow> rng" where
  "rest r = (\<lambda>n. r (Suc n))"

definition random_choice :: "'a list \<Rightarrow> rng \<Rightarrow> py_error + 'a \<times> rng" where
  "random_choice xs r =
     (if xs = [] then Inl IndexError else Inr (xs ! (r 0 mod length xs), rest r))"

definition random_randint :: "nat \<Rightarrow> nat \<Rightarrow> rng \<Rightarrow> py_error + nat \<times> rng" where
  "random_randint lo hi r =
     (if hi < lo then Inl (ValueError ''empty range for randint'')
      else Inr (lo + r 0 mod (hi - lo + 1), rest r))"

fun random_sample :: "'a list \<Rightarrow> nat \<Rightarrow> rng \<Rightarrow> py_error + 'a list \<times> rng" where
  "random_sample pool 0 r = Inr ([], r)"
| "random_sample pool (Suc k) r =
     (if pool = [] then Inl (ValueError ''Sample larger than population'')
      else
        (let i = r 0 mod length pool in
         case random_sample (take i pool @ drop (Suc i) pool) k (rest r) of
           Inl e \<Rightarrow> Inl e
         | Inr (xs, r') \<Rightarrow> Inr (pool ! i # xs, r')))"

definition random_below_half :: "rng \<Rightarrow> bool \<times> rng" where
  "random_below_half r = (r 0 mod 2 = 0, rest r)"

section \<open>Sampling an argument\<close>

definition replace_char :: "char \<Rightarrow> char \<Rightarrow> string \<Rightarrow> string" where
  "replace_char a b s = map (\<lambda>c. if c = a then b else c) s"

text \<open>
  \<open>objects\<close> is the dictionary from a canonical object name to its synonyms, in insertion
  order; \<open>locs\<close> is the list of locations.
\<close>

definition sample_argument ::
  "string \<Rightarrow> (string \<times> string list) list \<Rightarrow> string list \<Rightarrow> rng
     \<Rightarrow> py_error + (string \<times> string) \<times> rng" where
  "sample_argument kind objects locs r =
     (if kind = ''item'' then
        bind_error (random_choice objects r) (\<lambda>((key, synonyms), r1).
        bind_error (random_choice synonyms r1) (\<lambda>(syn, r2).
          Inr ((replace_char CHR '' '' CHR ''_'' key, replace_char CHR ''_'' CHR '' '' syn), r2)))
      else if kind = ''location'' then
        bind_error (random_choice locs r) (\<lambda>(canon, r1).
          Inr ((canon, replace_char CHR ''_'' CHR '' '' canon), r1))
      else if kind = ''ego'' then Inr ((''ego'', ''yourself''), r)
      else if kind = ''person'' then
        bind_error (random_choice [''injured'', ''safe''] r) (\<lambda>(mod1, r1).
        bind_error (random_choice [''victim'', ''rescuer'', ''hostile''] r1) (\<lambda>(noun, r2).
          (let canon = mod1 @ ''_'' @ noun
           in Inr ((canon, replace_char CHR ''_'' CHR '' '' canon), r2))))
      else if kind = ''threat'' then
        bind_error
          (random_choice [''active'', ''inactive'', ''impending'', ''probable'', ''nearest''] r)
          (\<lambda>(mod1, r1).
        bind_error
          (random_choice [''gas_leak'', ''unstable_beam'', ''fire_source'', ''debris'', ''flood'']
             r1)
          (\<lambda>(noun, r2).
          (let canon = mod1 @ ''_'' @ noun
           in Inr ((canon, replace_char CHR ''_'' CHR '' '' canon), r2))))
      else if kind = ''light'' then
        bind_error (random_choice locs r) (\<lambda>(pos, r1).
          Inr ((''light_'' @ pos, replace_char CHR ''_'' CHR '' '' (pos @ '' light'')), r1))
      else if kind = ''lane'' then
        bind_error
          (random_choice [''north'', ''south'', ''east'', ''west'', ''northwest'',
             ''northeast'', ''southwest'', ''southeast''] r)
          (\<lambda>(dir, r1).
        bind_error
          (random_choice [''1st'', ''2nd'', ''3rd'', ''4th'', ''5th'', ''6th'', ''7th'', ''8th'',
             ''9th'', ''10th''] r1)
          (\<lambda>(num, r2).
        bind_error (random_choice [''street'', ''avenue''] r2) (\<lambda>(road, r3).
          (let canon = dir @ ''_'' @ num @ ''_'' @ road
           in Inr ((canon, replace_char CHR ''_'' CHR '' '' canon), r3)))))
      else if kind = ''traffic_target'' then
        bind_error
          (random_choice [''person'', ''pedestrian'', ''vehicle'', ''car'', ''motorcycle'',
             ''cyclist'', ''jaywalker'', ''collision''] r)
          (\<lambda>(canon, r1). Inr ((canon, canon), r1))
      else if kind = ''sr_target'' then
        (case random_below_half r of
           (True, r1) \<Rightarrow>
             bind_error (random_choice [''injured'', ''safe'', ''unsafe''] r1) (\<lambda>(mod1, r2).
             bind_error (random_choice [''person'', ''civilian'', ''victim'', ''rescuer''] r2)
               (\<lambda>(noun, r3).
               (let canon = mod1 @ ''_'' @ noun
                in Inr ((canon, replace_char CHR ''_'' CHR '' '' canon), r3))))
         | (False, r1) \<Rightarrow>
             bind_error
               (random_choice [''gas_leak'', ''unstable_beam'', ''fire_source'', ''debris'',
                  ''flood''] r1)
               (\<lambda>(canon, r2). Inr ((canon, replace_char CHR ''_'' CHR '' '' canon), r2)))
      else if kind = ''color'' then
        bind_error (random_choice [''red'', ''yellow'', ''green''] r)
          (\<lambda>(canon, r1). Inr ((canon, canon), r1))
      else Inl (ValueError (''Unknown param kind '' @ [CHR 0x27] @ kind @ [CHR 0x27])))"


section \<open>Building one entry\<close>

record info =
  action_canon :: string
  action_ref :: string
  args_canon :: "string list"
  args_ref :: "string list"

text \<open>
  The fields of an entry; \<open>id\<close> and \<open>tl\<close> are written \<open>id_field\<close> and \<open>tl_field\<close>.
  A dictionary is the list of its items in insertion order, its keys distinct.
\<close>

record entry =
  id_field :: nat
  sentence :: "string list"
  tl_field :: "string list"
  masked_tl :: "string list"
  grounded_sentence :: "string list"
  lifted_sentence_prop_ids :: "nat list"
  prop_dict :: "(string \<times> info) list"
  good_trace :: trace
  bad_trace :: trace

text \<open>
  The sentence templates after the additional ones have been merged in; each with the
  number of leading segments it reads.
\<close>

type_synonym sentence_template = "nat \<times> (string list \<Rightarrow> string)"

definition SEMANTIC_TEMPLATES :: "(string \<times> sentence_template list) list" where
  "SEMANTIC_TEMPLATES =
   [
    (''F_NOT'', [(1, \<lambda>s. ''eventually, avoid '' @ s ! 0 @ ''.'')]),
    (''G_NOT'', [(1, \<lambda>s. ''always avoid '' @ s ! 0 @ ''.'')]),
    (''F_AND'', [(2, \<lambda>s. ''eventually '' @ s ! 0 @ '' and '' @ s ! 1 @ ''.'')]),
    (''G_AND'', [(2, \<lambda>s. ''always maintain both '' @ s ! 0 @ '' and '' @ s ! 1
         @ ''.'')]),
    (''F_OR'', [(2, \<lambda>s. ''eventually '' @ s ! 0 @ '' or '' @ s ! 1 @ ''.'')]),
    (''G_OR'', [(2, \<lambda>s. ''always have either '' @ s ! 0 @ '' or '' @ s ! 1 @ ''.'')]),
    (''NOT'', [(1, \<lambda>s. ''never '' @ s ! 0 @ ''.''),
       (1, \<lambda>s. ''avoid '' @ s ! 0 @ '' at all costs.'')]),
    (''AND'', [(2, \<lambda>s. s ! 0 @ '' and '' @ s ! 1 @ ''.''),
       (2, \<lambda>s. ''ensure both '' @ s ! 0 @ '' and '' @ s ! 1 @ ''.'')]),
    (''OR'', [(2, \<lambda>s. s ! 0 @ '' or '' @ s ! 1 @ ''.'')]),
    (''G_IMPL_F'', [(2, \<lambda>s. ''Globally, if '' @ s ! 0 @ '' occurs then finally ''
         @ s ! 1 @ '' happens.'')]),
    (''G_NOT_AND'', [(2, \<lambda>s. ''Globally, it is not the case that both '' @ s ! 0
         @ '' and '' @ s ! 1 @ '' hold simultaneously.'')]),
    (''G_IMPL_XXX'', [(2, \<lambda>s. ''Whenever '' @ s ! 0 @ '' holds, '' @ s ! 1
         @ '' holds exactly three steps later.'')]),
    (''U_GF'', [(2, \<lambda>s. s ! 0 @ '' must keep holding until, from some point on, ''
         @ s ! 1 @ '' holds infinitely often.'')]),
    (''F_B_IMPL_A_BEFORE'', [(2, \<lambda>s. ''If '' @ s ! 1 @ '' ever holds, '' @ s ! 0
         @ '' must have held beforehand.'')]),
    (''G_IMPL'', [(2, \<lambda>s. ''Whenever '' @ s ! 0 @ '' holds, '' @ s ! 1
         @ '' holds as well.'')]),
    (''G_AND_PAIR'', [(2, \<lambda>s. ''Both '' @ s ! 0 @ '' and '' @ s ! 1
         @ '' hold at every step.'')]),
    (''G_A_AND_G_B_IMPL_NOT_C'', [(3, \<lambda>s. s ! 0 @ '' holds always, and whenever ''
         @ s ! 1 @ '' holds, '' @ s ! 2 @ '' does not.'')]),
    (''G_IMPL_F_IMPL_GF'', [(3, \<lambda>s. ''If every '' @ s ! 0
         @ '' is eventually followed by '' @ s ! 1 @ '', then '' @ s ! 2
         @ '' must occur infinitely often.'')]),
    (''GF_IMPL_GF'', [(2, \<lambda>s. ''If '' @ s ! 0
         @ '' happens infinitely often, then so does '' @ s ! 1 @ ''.'')]),
    (''GF_OR_GF'', [(2, \<lambda>s. ''Either '' @ s ! 0 @ '' or '' @ s ! 1
         @ '' happens infinitely often.'')]),
    (''FG_NOT'', [(1, \<lambda>s. ''From some point onwards, '' @ s ! 0
         @ '' never occurs again.'')]),
    (''G_NOT_AND_IMPL_F'', [(3, \<lambda>s. ''Whenever neither '' @ s ! 0 @ '' nor ''
         @ s ! 1 @ '' holds, '' @ s ! 2 @ '' eventually holds.'')]),
    (''EXCLUSIVE_ALWAYS_ONE'', [(2, \<lambda>s. s ! 0 @ '' and '' @ s ! 1
         @ '' never coincide, yet one of them is always true.'')]),
    (''G_EQ_IMPL_EQ'', [(3, \<lambda>s. ''Whenever '' @ s ! 0 @ '' and '' @ s ! 1
         @ '' are equal, '' @ s ! 1 @ '' and '' @ s ! 2 @ '' are equal as well.'')]),
    (''NOT_A_UNTIL_B'', [(2, \<lambda>s. s ! 0 @ '' can only happen after '' @ s ! 1
         @ ''.'')]),
    (''G_A_IMPL_XG_NOT_B'', [(2, \<lambda>s. ''Once '' @ s ! 0 @ '' has occurred, '' @ s ! 1
         @ '' will never occur again.'')]),
    (''A_RELEASES_B'', [(2, \<lambda>s. s ! 0 @ '' releases '' @ s ! 1 @ '' ''
         @ [CHR 0xE2, CHR 0x80, CHR 0x94] @ '' after '' @ s ! 0 @ '' ends, '' @ s ! 1
         @ '' must hold continuously.'')]),
    (''G_NOT_AND_ALT'', [(2, \<lambda>s. s ! 0 @ '' and '' @ s ! 1
         @ '' are mutually exclusive at all times.'')]),
    (''TWO_STEP_TRIGGER'', [(3, \<lambda>s. ''If '' @ s ! 0 @ '' holds and '' @ s ! 1
         @ '' holds next, then '' @ s ! 2 @ '' holds in the step after that.'')]),
    (''NEXT_EVENTUAL'', [(2, \<lambda>s. ''Whenever '' @ s ! 0
         @ '' holds, from the next step onwards '' @ s ! 1 @ '' will eventually hold.'')]),
    (''EVERY_FIFTH_STEP'', [(1, \<lambda>s. s ! 0 @ '' holds exactly every fifth step.'')]),
    (''GF_A_OR_NEXT_B'', [(2, \<lambda>s. ''Either '' @ s ! 0
         @ '' happens infinitely often, or '' @ s ! 1 @ '' happens in the next step.'')]),
    (''G_ALWAYS_A'', [(1, \<lambda>s. s ! 0 @ '' holds at all times.'')]),
    (''A_IMPL_B_WITHIN_1'', [(2, \<lambda>s. ''When '' @ s ! 0 @ '' happens, '' @ s ! 1
         @ '' must hold now or in the next step.'')]),
    (''G_ONE_OF_ABC'', [(3, \<lambda>s. ''At every moment, at least one of '' @ s ! 0
         @ '', '' @ s ! 1 @ '', or '' @ s ! 2 @ '' holds.'')]),
    (''A_IMPL_EVENTUAL_B'', [(2, \<lambda>s. ''Whenever '' @ s ! 0 @ '' holds, eventually ''
         @ s ! 1 @ '' will hold.'')]),
    (''ALMOST_ALWAYS_A'', [(1, \<lambda>s. s ! 0
         @ '' should always hold, with at most a two-step grace period for recovery.'')]),
    (''NOT_A_AT_MOST_TWO'', [(1, \<lambda>s. ''Not '' @ s ! 0
         @ '' may last at most two consecutive steps.'')]),
    (''A_EVERY_THIRD_STEP'', [(1, \<lambda>s. s ! 0
         @ '' occurs at most once every three steps.'')]),
    (''NEXT_FOLLOW'', [(2, \<lambda>s. ''Every '' @ s ! 0 @ '' is directly followed by ''
         @ s ! 1 @ '' in the next step.'')]),
    (''EVENTUALLY_BOTH'', [(2, \<lambda>s. ''Eventually, both '' @ s ! 0 @ '' and '' @ s ! 1
         @ '' hold simultaneously.'')]),
    (''BOTH_EVENTUAL'', [(2, \<lambda>s. s ! 0 @ '' and '' @ s ! 1
         @ '' will each happen at some point.'')]),
    (''STEPWISE_EQUALITY'', [(2, \<lambda>s. ''At every step, '' @ s ! 0
         @ '' equals the value of '' @ s ! 1 @ '' in the next step.'')]),
    (''RESPONSE_UNTIL_OR_ALWAYS'', [(3, \<lambda>s. ''If '' @ s ! 1
         @ '' holds, then in the next step '' @ s ! 2 @ '' persists until '' @ s ! 0
         @ '' holds, or else '' @ s ! 2 @ '' holds forever.'')]),
    (''UNTIL_OR_ALWAYS'', [(2, \<lambda>s. s ! 0 @ '' must hold until '' @ s ! 1
         @ '' does, or else '' @ s ! 0 @ '' holds forever.'')])]"

definition GENERIC_TEMPLATES :: "sentence_template list" where
  "GENERIC_TEMPLATES =
     [(0, \<lambda>s. ''In this task, '' @ py_join '', then '' s @ ''.''),
      (0, \<lambda>s. ''Please '' @ py_join '' and then '' s @ ''.'')]"

definition call_template :: "sentence_template \<Rightarrow> string list \<Rightarrow> py_error + string" where
  "call_template tpl s =
     (case tpl of (reads, f) \<Rightarrow> if length s < reads then Inl IndexError else Inr (f s))"

definition pick_sentence_template :: "string \<Rightarrow> rng \<Rightarrow> py_error + sentence_template \<times> rng" where
  "pick_sentence_template key r =
     random_choice
       (case map_of SEMANTIC_TEMPLATES key of Some ts \<Rightarrow> ts | None \<Rightarrow> GENERIC_TEMPLATES) r"

definition atom :: "info \<Rightarrow> string" where
  "atom info =
     (if args_canon info \<noteq> []
      then action_canon info @ ''('' @ py_join '','' (args_canon info) @ '')''
      else action_canon info)"

text \<open>\<open>actions_cfg\<close> maps a verb to its list \<open>params\<close> of argument kinds.\<close>

definition nl_segment :: "(string \<times> string list) list \<Rightarrow> info \<Rightarrow> py_error + string" where
  "nl_segment actions_cfg info =
     (case map_of actions_cfg (action_canon info) of
        None \<Rightarrow> Inl (KeyError (action_canon info))
      | Some params \<Rightarrow>
          (let v_ref = action_ref info in
           if params = [] then Inr v_ref
           else if params = [''item''] \<or> params = [''person''] \<or> params = [''threat'']
                   \<or> params = [''target''] then
             (case args_ref info of
                [] \<Rightarrow> Inl IndexError
              | obj # _ \<Rightarrow> Inr (v_ref @ '' the '' @ obj))
           else if params = [''item'', ''location''] then
             (case args_ref info of
                [obj, loc] \<Rightarrow> Inr (v_ref @ '' the '' @ obj @ '' to the '' @ loc)
              | _ \<Rightarrow> Inl (ValueError ''unpack''))
           else if params = [''traffic_target'', ''lane''] then
             (case args_ref info of
                [tgt, lane] \<Rightarrow>
                  (let prep = (if list_ex (\<lambda>k. is_substr k lane) [''street'', ''avenue'', ''road'']
                               then ''on'' else ''at'')
                   in Inr (v_ref @ '' the '' @ tgt @ '' '' @ prep @ '' '' @ lane))
              | _ \<Rightarrow> Inl (ValueError ''unpack''))
           else Inr (v_ref @ '' '' @ py_join '' '' (args_ref info))))"

text \<open>
  After the gerund fixes: the first word of the action reference, and its gerund, against
  the corrected sentence \<open>g_raw\<close>.
\<close>

definition refresh_action_ref :: "string \<Rightarrow> info \<Rightarrow> py_error + info" where
  "refresh_action_ref g_raw info =
     (case py_split (action_ref info) of
        [] \<Rightarrow> Inl IndexError
      | bare # _ \<Rightarrow>
          (let ger = to_gerund bare in
           if \<not> is_substr bare g_raw \<and> is_substr ger g_raw
           then Inr (info\<lparr>action_ref := ger\<rparr>)
           else Inr info))"

definition segment_tokens ::
  "nlp \<Rightarrow> (string \<times> string list) list \<Rightarrow> info \<Rightarrow> py_error + string list" where
  "segment_tokens svc actions_cfg info =
     bind_error (nl_segment actions_cfg info) (\<lambda>seg_txt.
       (let seg_txt = correct_sentence svc seg_txt;
            toks = word_tokenize svc (py_lower seg_txt)
        in Inr (map rstrip_punctuation
                  (filter (\<lambda>t. \<not> is_substr t string_punctuation) toks))))"

text \<open>
  The labelling loop. \<open>segs\<close> lists, for the labels used and in their order, the
  placeholder id of the label and the tokens of its segment.
\<close>

definition span_matches :: "nlp \<Rightarrow> string list \<Rightarrow> nat \<Rightarrow> string list \<Rightarrow> bool" where
  "span_matches svc g_tok i tok_seq =
     (i + length tok_seq \<le> length g_tok \<and>
      list_all (\<lambda>j. same_word svc (g_tok ! (i + j)) (tok_seq ! j)) [0..<length tok_seq])"

definition first_match ::
  "nlp \<Rightarrow> string list \<Rightarrow> nat \<Rightarrow> (nat \<times> string list) list \<Rightarrow> (nat \<times> string list) option" where
  "first_match svc g_tok i segs = find (\<lambda>(pid, tok_seq). span_matches svc g_tok i tok_seq) segs"

definition set_ids :: "nat list \<Rightarrow> nat \<Rightarrow> nat \<Rightarrow> nat \<Rightarrow> nat list" where
  "set_ids ids i len pid = fold (\<lambda>j xs. xs[i + j := pid]) [0..<len] ids"

partial_function (option) label_tokens ::
  "nlp \<Rightarrow> string list \<Rightarrow> (nat \<times> string list) list \<Rightarrow> nat \<Rightarrow> nat list \<Rightarrow> string list
     \<Rightarrow> (nat list \<times> string list) option" where
  "label_tokens svc g_tok segs i ids masked =
     (if i < length g_tok then
        (case first_match svc g_tok i segs of
           Some (pid, tok_seq) \<Rightarrow>
             label_tokens svc g_tok segs (i + length tok_seq)
               (set_ids ids i (length tok_seq) pid) (masked @ [prop_token pid])
         | None \<Rightarrow> label_tokens svc g_tok segs (i + 1) ids (masked @ [g_tok ! i]))
      else Some (ids, masked))"

declare label_tokens.simps [code]

definition viable_skeletons :: "nat \<Rightarrow> skeleton list" where
  "viable_skeletons arity =
     (let exact = filter (\<lambda>(key, need, f). need = arity) LTL_TEMPLATES_STATE
      in if exact \<noteq> [] then exact
         else filter (\<lambda>(key, need, f). need \<le> arity) LTL_TEMPLATES_STATE)"

text \<open>
  \<open>props\<close> is the dictionary from the labels to the propositions. The labels used are the
  first \<open>need\<close> keys, so the items of the labels used, \<open>used\<close>, are the first \<open>need\<close>
  items. The steps of \<open>build_entry_for_props\<close> follow.
\<close>

text \<open>Step 2: the grounded formula and the masked one.\<close>

definition ground_formulas ::
  "skeleton \<Rightarrow> (string \<times> info) list \<Rightarrow> py_error + string list \<times> string list" where
  "ground_formulas tpl used =
     bind_error (call_skeleton tpl (map (\<lambda>(lbl, info). atom info) used)) (\<lambda>g_ltl.
     bind_error (call_skeleton tpl (map fst used)) (\<lambda>m_ltl.
       Inr (g_ltl, m_ltl)))"

text \<open>Step 3: the segments, the sentence template, the ego reference, the corrections.\<close>

definition render_sentence ::
  "nlp \<Rightarrow> (string \<times> string list) list \<Rightarrow> string \<Rightarrow> (string \<times> info) list \<Rightarrow> rng
     \<Rightarrow> py_error + string \<times> rng" where
  "render_sentence svc actions_cfg key used r1 =
     bind_error (map_error (\<lambda>(lbl, info). nl_segment actions_cfg info) used) (\<lambda>segs_ground.
     bind_error (pick_sentence_template key r1) (\<lambda>(tpl, r2).
     bind_error (random_choice EGO_REFS r2) (\<lambda>(ego, r3).
     bind_error (call_template tpl segs_ground) (\<lambda>raw.
     bind_error (add_ego_reference raw ego) (\<lambda>with_ego.
       Inr (correct_sentence svc with_ego, r3))))))"

text \<open>Step 4: the update of every proposition of \<open>props\<close>.\<close>

definition refresh_props :: "string \<Rightarrow> (string \<times> info) list \<Rightarrow> py_error + (string \<times> info) list" where
  "refresh_props g_raw props =
     map_error (\<lambda>(lbl, info).
       bind_error (refresh_action_ref g_raw info) (\<lambda>info'. Inr (lbl, info'))) props"

text \<open>Step 5: the tokens of the segments, then the labelling loop.\<close>

definition label_sentence ::
  "nlp \<Rightarrow> (string \<times> string list) list \<Rightarrow> string list \<Rightarrow> (string \<times> info) list
     \<Rightarrow> (nat list \<times> string list) result" where
  "label_sentence svc actions_cfg g_tok used =
     (case map_error (\<lambda>(lbl, info). segment_tokens svc actions_cfg info) used of
        Inl e \<Rightarrow> Some (Inl e)
      | Inr seg_tokens \<Rightarrow>
          map_option Inr
            (label_tokens svc g_tok (zip [1..<Suc (length used)] seg_tokens) 0
               (replicate (length g_tok) 0) []))"

text \<open>Step 6: the entry.\<close>

definition finalise_entry ::
  "nat \<Rightarrow> string list \<Rightarrow> string list \<Rightarrow> string list \<Rightarrow> nat list \<Rightarrow> string list
     \<Rightarrow> (string \<times> info) list \<Rightarrow> trace \<Rightarrow> trace \<Rightarrow> entry" where
  "finalise_entry idx g_tok g_ltl m_ltl ids masked used good bad =
     (let pids = [1..<Suc (length used)];
          mapping = zip (map fst used) (map prop_token pids)
      in \<lparr>id_field = idx,
          sentence = g_tok,
          tl_field = g_ltl,
          masked_tl = map (\<lambda>t. case map_of mapping t of Some p \<Rightarrow> p | None \<Rightarrow> t) m_ltl,
          grounded_sentence = masked,
          lifted_sentence_prop_ids = ids,
          prop_dict = zip (map prop_token pids) (map snd used),
          good_trace = good,
          bad_trace = bad\<rparr>)"

definition build_entry_for_props ::
  "nlp \<Rightarrow> nat \<Rightarrow> (string \<times> info) list \<Rightarrow> (string \<times> string list) list \<Rightarrow> rng
     \<Rightarrow> (entry \<times> rng) result" where
  "build_entry_for_props svc idx props actions_cfg r =
     (case random_choice (viable_skeletons (length props)) r of
        Inl err \<Rightarrow> Some (Inl err)
      | Inr ((key, need, skeleton), r1) \<Rightarrow>
     (case ground_formulas (key, need, skeleton) (take need props) of
        Inl err \<Rightarrow> Some (Inl err)
      | Inr (g_ltl, m_ltl) \<Rightarrow>
     (case render_sentence svc actions_cfg key (take need props) r1 of
        Inl err \<Rightarrow> Some (Inl err)
      | Inr (g_raw, r3) \<Rightarrow>
     (case refresh_props g_raw props of
        Inl err \<Rightarrow> Some (Inl err)
      | Inr props' \<Rightarrow>
     (case map_error (\<lambda>(lbl, info). nl_segment actions_cfg info) (take need props') of
        Inl err \<Rightarrow> Some (Inl err)
      | Inr segs_ground \<Rightarrow>
     (case label_sentence svc actions_cfg (py_split g_raw) (take need props') of
        None \<Rightarrow> None
      | Some (Inl err) \<Rightarrow> Some (Inl err)
      | Some (Inr (ids, masked)) \<Rightarrow>
     (case make_traces key (map (\<lambda>(lbl, info). atom info) (take need props')) of
        Inl err \<Rightarrow> Some (Inl err)
      | Inr (good, bad) \<Rightarrow>
          Some (Inr (finalise_entry idx (py_split g_raw) g_ltl m_ltl ids masked
                       (take need props') good bad, r3)))))))))"

section \<open>Building the whole dataset\<close>

definition entry_is_valid :: "entry \<Rightarrow> bool" where
  "entry_is_valid e =
     (let n_props = length (prop_dict e);
          required_ids = [1..<n_props + 1]
      in if \<not> set required_ids \<subseteq> set (lifted_sentence_prop_ids e) then False
         else if \<not> set (map prop_token required_ids) \<subseteq> set (grounded_sentence e) then False
         else True)"

text \<open>Assignment to a key of a dictionary.\<close>

fun dict_set :: "('k \<times> 'v) list \<Rightarrow> 'k \<Rightarrow> 'v \<Rightarrow> ('k \<times> 'v) list" where
  "dict_set [] k v = [(k, v)]"
| "dict_set ((k', v') # kvs) k v =
     (if k' = k then (k, v) # kvs else (k', v') # dict_set kvs k v)"

text \<open>The arguments of one verb: one sampled argument for each kind of its \<open>params\<close>.\<close>

fun sample_arguments ::
  "string list \<Rightarrow> (string \<times> string list) list \<Rightarrow> string list \<Rightarrow> rng
     \<Rightarrow> py_error + (string list \<times> string list) \<times> rng" where
  "sample_arguments [] objects locs r = Inr (([], []), r)"
| "sample_arguments (kind # kinds) objects locs r =
     bind_error (sample_argument kind objects locs r) (\<lambda>((c, rf), r1).
     bind_error (sample_arguments kinds objects locs r1) (\<lambda>((cs, rfs), r2).
       Inr ((c # cs, rf # rfs), r2)))"

text \<open>
  The search for a new atomic proposition for the label \<open>lbl\<close>: at most \<open>n\<close> more draws.
  The state is the dictionary \<open>props\<close>, the atoms used and the random number stream. When
  no draw is new, the label gets no proposition.
\<close>

fun sample_fresh ::
  "nat \<Rightarrow> (string \<times> string list) list \<Rightarrow> (string \<times> string list) list \<Rightarrow> string list
     \<Rightarrow> (string \<times> string list) list \<Rightarrow> string
     \<Rightarrow> (string \<times> info) list \<times> string list \<times> rng
     \<Rightarrow> py_error + (string \<times> info) list \<times> string list \<times> rng" where
  "sample_fresh 0 objects actions_dict locs actions_cfg lbl st = Inr st"
| "sample_fresh (Suc n) objects actions_dict locs actions_cfg lbl (props, atoms_used, r) =
     bind_error (random_choice (map fst actions_dict) r) (\<lambda>(verb, r1).
     bind_error (case map_of actions_cfg verb of
                   None \<Rightarrow> Inl (KeyError verb) | Some params \<Rightarrow> Inr params) (\<lambda>params.
     bind_error (sample_arguments params objects locs r1) (\<lambda>((a_canon, a_ref), r2).
       (let atm = (if a_canon \<noteq> [] then verb @ ''('' @ py_join '','' a_canon @ '')'' else verb)
        in if atm \<in> set atoms_used
           then sample_fresh n objects actions_dict locs actions_cfg lbl (props, atoms_used, r2)
           else
             bind_error (case map_of actions_dict verb of
                           None \<Rightarrow> Inl (KeyError verb) | Some synonyms \<Rightarrow> Inr synonyms)
               (\<lambda>synonyms.
             bind_error (random_choice synonyms r2) (\<lambda>(v_ref, r3).
               Inr (dict_set props lbl
                      \<lparr>action_canon = verb, action_ref = v_ref,
                        args_canon = a_canon, args_ref = a_ref\<rparr>,
                    atm # atoms_used, r3)))))))"

fun sample_labels ::
  "string list \<Rightarrow> (string \<times> string list) list \<Rightarrow> (string \<times> string list) list \<Rightarrow> string list
     \<Rightarrow> (string \<times> string list) list
     \<Rightarrow> (string \<times> info) list \<times> string list \<times> rng
     \<Rightarrow> py_error + (string \<times> info) list \<times> string list \<times> rng" where
  "sample_labels [] objects actions_dict locs actions_cfg st = Inr st"
| "sample_labels (lbl # lbls) objects actions_dict locs actions_cfg st =
     bind_error (sample_fresh 50 objects actions_dict locs actions_cfg lbl st)
       (sample_labels lbls objects actions_dict locs actions_cfg)"

definition sample_propositions ::
  "(string \<times> string list) list \<Rightarrow> (string \<times> string list) list \<Rightarrow> string list
     \<Rightarrow> (string \<times> string list) list \<Rightarrow> nat \<Rightarrow> rng
     \<Rightarrow> py_error + (string \<times> info) list \<times> rng" where
  "sample_propositions objects actions_dict locs actions_cfg max_props r =
     (let label_pool = map prop_token [1..<max_props + 1] in
      bind_error (random_randint 1 max_props r) (\<lambda>(k, r1).
      bind_error (random_sample label_pool k r1) (\<lambda>(want_labels, r2).
      bind_error (sample_labels want_labels objects actions_dict locs actions_cfg ([], [], r2))
        (\<lambda>(props, atoms_used, r3). Inr (props, r3)))))"

text \<open>The loop that generates until there are enough valid entries.\<close>

partial_function (option) dataset_loop ::
  "nlp \<Rightarrow> (string \<times> string list) list \<Rightarrow> (string \<times> string list) list \<Rightarrow> string list
     \<Rightarrow> (string \<times> string list) list \<Rightarrow> nat \<Rightarrow> nat \<Rightarrow> entry list \<Rightarrow> rng
     \<Rightarrow> (py_error + entry list) option" where
  "dataset_loop svc objects actions_dict locs actions_cfg num_entries max_props dataset r =
     (if length dataset < num_entries then
        (case sample_propositions objects actions_dict locs actions_cfg max_props r of
           Inl e \<Rightarrow> Some (Inl e)
         | Inr (props, r1) \<Rightarrow>
             (case build_entry_for_props svc (length dataset) props actions_cfg r1 of
                None \<Rightarrow> None
              | Some (Inl e) \<Rightarrow> Some (Inl e)
              | Some (Inr (e, r2)) \<Rightarrow>
                  dataset_loop svc objects actions_dict locs actions_cfg num_entries max_props
                    (if entry_is_valid e then dataset @ [e] else dataset) r2))
      else Some (Inr dataset))"

declare dataset_loop.simps [code]

definition renumber :: "entry list \<Rightarrow> entry list" where
  "renumber dataset = map (\<lambda>(new_id, e). e\<lparr>id_field := new_id\<rparr>) (enumerate 0 dataset)"

definition build_dataset_entries ::
  "nlp \<Rightarrow> (string \<times> string list) list \<Rightarrow> (string \<times> string list) list \<Rightarrow> string list
     \<Rightarrow> (string \<times> string list) list \<Rightarrow> nat \<Rightarrow> nat \<Rightarrow> rng \<Rightarrow> entry list result" where
  "build_dataset_entries svc objects actions_dict locs actions_cfg num_entries max_props r =
     bind_result
       (dataset_loop svc objects actions_dict locs actions_cfg num_entries max_props [] r)
       (\<lambda>dataset. Some (Inr (renumber dataset)))"

section \<open>The atoms of a dictionary of propositions\<close>

definition atoms_of :: "(string \<times> info) list \<Rightarrow> string list" where
  "atoms_of props = map (\<lambda>(lbl, info). atom info) props"

text \<open>
  The invariant of the sampling, on the dictionary \<open>props\<close> and the set
  \<open>atoms_used\<close>: the atoms of \<open>props\<close> are pairwise distinct and all in \<open>atoms_used\<close>.
\<close>

definition fresh_atoms :: "(string \<times> info) list \<times> string list \<times> rng \<Rightarrow> bool" where
  "fresh_atoms st =
     (case st of (props, atoms_used, r) \<Rightarrow>
        distinct (atoms_of props) \<and> set (atoms_of props) \<subseteq> set atoms_used)"

section \<open>An instance for the examples\<close>




definition example_actions :: "(string \<times> string list) list" where
  "example_actions = [(''deliver'', [''deliver'']), (''idle'', [''idle''])]"


definition example_cfg :: "(string \<times> string list) list" where
  "example_cfg = [(''deliver'', [''item'', ''location'']), (''idle'', [])]"

section \<open>Properties of the inflection helper\<close>

lemma endswith_append_self: "endswith (w @ s) s"
  by (simp add: endswith_def)

lemma endswith_ying_ing: "endswith (w @ ''ying'') ''ing''"
  by (simp add: endswith_def)

text \<open>
  Claim C9. \<open>_to_gerund\<close> is total; a word ending in "ie" loses its last two letters and
  gains "ying", a word ending in "e" but not in "ee" loses its last letter and gains
  "ing", and every other word gains "ing"; the result always ends in "ing", and the
  vowel-consonant branch never doubles the final consonant ("stop" becomes "stoping").
\<close>

theorem to_gerund_cases:
  "to_gerund w =
     (if endswith w ''ie'' then take (length w - 2) w @ ''ying''
      else if endswith w ''e'' \<and> \<not> endswith w ''ee'' then take (length w - 1) w @ ''ing''
      else w @ ''ing'')
   \<and> endswith (to_gerund w) ''ing''
   \<and> to_gerund ''stop'' = ''stoping''"
proof -
  have shape: "to_gerund w =
     (if endswith w ''ie'' then take (length w - 2) w @ ''ying''
      else if endswith w ''e'' \<and> \<not> endswith w ''ee'' then take (length w - 1) w @ ''ing''
      else w @ ''ing'')"
    by (simp add: to_gerund_def)
  have ends: "endswith (to_gerund w) ''ing''"
    unfolding shape using endswith_append_self [of _ "''ing''"] endswith_ying_ing
    by simp
  have stop: "to_gerund ''stop'' = ''stoping''"
    by (simp add: to_gerund_def endswith_def)
  from shape ends stop show ?thesis by blast
qed

theorem to_gerund_cases_witness:
  "to_gerund ''deliver'' = ''delivering'' \<and> to_gerund ''retrieve'' = ''retrieving''
   \<and> to_gerund ''tie'' = ''tying'' \<and> to_gerund ''see'' = ''seeing''"
  using to_gerund_cases [of "''deliver''"] to_gerund_cases [of "''retrieve''"]
    to_gerund_cases [of "''tie''"] to_gerund_cases [of "''see''"]
  by (simp add: endswith_def)

section \<open>The evaluation of a formula on a trace\<close>

lemma holds_shift:
  "(\<And>k. w (i + k) = w (j + k)) \<Longrightarrow> holds w i f = holds w j f"
proof (induction f arbitrary: i j)
  case (LAtom a)
  from LAtom [of 0] show ?case by simp
next
  case (LNext f)
  have "holds w (Suc i) f = holds w (Suc j) f"
    by (rule LNext.IH) (use LNext.prems [of "Suc _"] in simp)
  then show ?case by simp
next
  case (LFinally f)
  have step: "holds w (i + d) f = holds w (j + d) f" for d
    by (rule LFinally.IH) (use LFinally.prems [of "d + _"] in \<open>simp add: add.assoc\<close>)
  have "(\<exists>a\<ge>i. holds w a f) = (\<exists>d. holds w (i + d) f)"
    by (auto simp: le_iff_add)
  moreover have "(\<exists>a\<ge>j. holds w a f) = (\<exists>d. holds w (j + d) f)"
    by (auto simp: le_iff_add)
  ultimately show ?case using step by simp
next
  case (LGlobally f)
  have step: "holds w (i + d) f = holds w (j + d) f" for d
    by (rule LGlobally.IH) (use LGlobally.prems [of "d + _"] in \<open>simp add: add.assoc\<close>)
  have "(\<forall>a\<ge>i. holds w a f) = (\<forall>d. holds w (i + d) f)"
    by (auto simp: le_iff_add)
  moreover have "(\<forall>a\<ge>j. holds w a f) = (\<forall>d. holds w (j + d) f)"
    by (auto simp: le_iff_add)
  ultimately show ?case using step by simp
next
  case (LUntil f g)
  have sf: "holds w (i + d) f = holds w (j + d) f" for d
    by (rule LUntil.IH(1)) (use LUntil.prems [of "d + _"] in \<open>simp add: add.assoc\<close>)
  have sg: "holds w (i + d) g = holds w (j + d) g" for d
    by (rule LUntil.IH(2)) (use LUntil.prems [of "d + _"] in \<open>simp add: add.assoc\<close>)
  have shape: "(\<exists>a\<ge>m. holds w a g \<and> (\<forall>k. m \<le> k \<and> k < a \<longrightarrow> holds w k f))
      = (\<exists>d. holds w (m + d) g \<and> (\<forall>e<d. holds w (m + e) f))" for m
  proof
    assume "\<exists>a\<ge>m. holds w a g \<and> (\<forall>k. m \<le> k \<and> k < a \<longrightarrow> holds w k f)"
    then obtain a where a: "m \<le> a" "holds w a g" "\<forall>k. m \<le> k \<and> k < a \<longrightarrow> holds w k f"
      by blast
    then have "holds w (m + (a - m)) g \<and> (\<forall>e<a - m. holds w (m + e) f)"
      by auto
    then show "\<exists>d. holds w (m + d) g \<and> (\<forall>e<d. holds w (m + e) f)" ..
  next
    assume "\<exists>d. holds w (m + d) g \<and> (\<forall>e<d. holds w (m + e) f)"
    then obtain d where d: "holds w (m + d) g" "\<forall>e<d. holds w (m + e) f" by blast
    have "\<forall>k. m \<le> k \<and> k < m + d \<longrightarrow> holds w k f"
    proof (intro allI impI)
      fix k assume "m \<le> k \<and> k < m + d"
      then have "k - m < d" "k = m + (k - m)" by auto
      with d(2) show "holds w k f" by metis
    qed
    with d(1) show "\<exists>a\<ge>m. holds w a g \<and> (\<forall>k. m \<le> k \<and> k < a \<longrightarrow> holds w k f)"
      by (intro exI [of _ "m + d"]) simp
  qed
  show ?case by (simp only: holds.simps shape sf sg)
next
  case (LNot f)
  from LNot.IH [OF LNot.prems] show ?case by simp
next
  case (LAnd f g)
  from LAnd.IH(1) [OF LAnd.prems] LAnd.IH(2) [OF LAnd.prems] show ?case by simp
next
  case (LOr f g)
  from LOr.IH(1) [OF LOr.prems] LOr.IH(2) [OF LOr.prems] show ?case by simp
next
  case (LImplies f g)
  from LImplies.IH(1) [OF LImplies.prems] LImplies.IH(2) [OF LImplies.prems] show ?case by simp
next
  case (LIff f g)
  from LIff.IH(1) [OF LIff.prems] LIff.IH(2) [OF LIff.prems] show ?case by simp
qed


lemma moment_beyond: "length tr - 1 \<le> i \<Longrightarrow> moment tr i = moment tr (length tr - 1)"
  by (simp add: moment_def min_def)

lemma holds_eval_at:
  assumes "tr \<noteq> []"
  shows "holds (moment tr) i f = eval_at tr (min i (length tr - 1)) f"
proof (induction f arbitrary: i)
  case (LAtom a)
  show ?case by (simp add: moment_def)
next
  case (LNext f)
  have "min (Suc (min i (length tr - 1))) (length tr - 1) = min (Suc i) (length tr - 1)"
    by (simp add: min_def)
  with LNext [of "Suc i"] show ?case by simp
next
  case (LFinally f)
  let ?N = "length tr - 1"
  have n: "length tr = Suc ?N" using assms by (cases tr) auto
  have "(\<exists>j\<ge>i. eval_at tr (min j ?N) f) = (\<exists>j. min i ?N \<le> j \<and> j < length tr \<and> eval_at tr j f)"
  proof
    assume "\<exists>j\<ge>i. eval_at tr (min j ?N) f"
    then obtain j where "i \<le> j" "eval_at tr (min j ?N) f" by blast
    then have "min i ?N \<le> min j ?N \<and> min j ?N < length tr \<and> eval_at tr (min j ?N) f"
      using n by (simp add: min_def)
    then show "\<exists>j. min i ?N \<le> j \<and> j < length tr \<and> eval_at tr j f" ..
  next
    assume "\<exists>j. min i ?N \<le> j \<and> j < length tr \<and> eval_at tr j f"
    then obtain j where j: "min i ?N \<le> j" "j < length tr" "eval_at tr j f" by blast
    show "\<exists>j\<ge>i. eval_at tr (min j ?N) f"
    proof (cases "i \<le> ?N")
      case True
      with j n have "i \<le> j \<and> eval_at tr (min j ?N) f" by (simp add: min_def)
      then show ?thesis by blast
    next
      case False
      with j n have "j = ?N" by (simp add: min_def)
      with j False have "i \<le> i \<and> eval_at tr (min i ?N) f" by (simp add: min_def)
      then show ?thesis by blast
    qed
  qed
  then show ?case by (simp add: LFinally list_ex_iff Bex_def)
next
  case (LGlobally f)
  let ?N = "length tr - 1"
  have n: "length tr = Suc ?N" using assms by (cases tr) auto
  have "(\<forall>j\<ge>i. eval_at tr (min j ?N) f) = (\<forall>j. min i ?N \<le> j \<and> j < length tr \<longrightarrow> eval_at tr j f)"
  proof
    assume a: "\<forall>j\<ge>i. eval_at tr (min j ?N) f"
    show "\<forall>j. min i ?N \<le> j \<and> j < length tr \<longrightarrow> eval_at tr j f"
    proof (intro allI impI)
      fix j assume j: "min i ?N \<le> j \<and> j < length tr"
      show "eval_at tr j f"
      proof (cases "i \<le> ?N")
        case True
        with j n a [rule_format, of j] show ?thesis by (simp add: min_def)
      next
        case False
        with j n have "j = ?N" by (simp add: min_def)
        with False a [rule_format, of i] show ?thesis by (simp add: min_def)
      qed
    qed
  next
    assume a: "\<forall>j. min i ?N \<le> j \<and> j < length tr \<longrightarrow> eval_at tr j f"
    show "\<forall>j\<ge>i. eval_at tr (min j ?N) f"
    proof (intro allI impI)
      fix j assume "i \<le> j"
      then have "min i ?N \<le> min j ?N \<and> min j ?N < length tr"
        using n by (simp add: min_def)
      with a show "eval_at tr (min j ?N) f" by blast
    qed
  qed
  then show ?case by (simp add: LGlobally list_all_iff Ball_def)
next
  case (LUntil f g)
  let ?N = "length tr - 1"
  let ?m = "min i ?N"
  have n: "length tr = Suc ?N" using assms by (cases tr) auto
  have "(\<exists>j\<ge>i. eval_at tr (min j ?N) g \<and> (\<forall>k. i \<le> k \<and> k < j \<longrightarrow> eval_at tr (min k ?N) f))
      = (\<exists>j. ?m \<le> j \<and> j < length tr \<and> eval_at tr j g
             \<and> (\<forall>k. ?m \<le> k \<and> k < j \<longrightarrow> eval_at tr k f))"
  proof
    assume "\<exists>j\<ge>i. eval_at tr (min j ?N) g \<and> (\<forall>k. i \<le> k \<and> k < j \<longrightarrow> eval_at tr (min k ?N) f)"
    then obtain j where j: "i \<le> j" "eval_at tr (min j ?N) g"
      "\<forall>k. i \<le> k \<and> k < j \<longrightarrow> eval_at tr (min k ?N) f" by blast
    have "\<forall>k. ?m \<le> k \<and> k < min j ?N \<longrightarrow> eval_at tr k f"
    proof (intro allI impI)
      fix k assume k: "?m \<le> k \<and> k < min j ?N"
      then have "i \<le> k \<and> k < j \<and> min k ?N = k" by (simp add: min_def split: if_splits)
      with j(3) show "eval_at tr k f" by metis
    qed
    moreover have "?m \<le> min j ?N \<and> min j ?N < length tr"
      using j(1) n by (simp add: min_def)
    ultimately show "\<exists>j. ?m \<le> j \<and> j < length tr \<and> eval_at tr j g
             \<and> (\<forall>k. ?m \<le> k \<and> k < j \<longrightarrow> eval_at tr k f)"
      using j(2) by blast
  next
    assume "\<exists>j. ?m \<le> j \<and> j < length tr \<and> eval_at tr j g
             \<and> (\<forall>k. ?m \<le> k \<and> k < j \<longrightarrow> eval_at tr k f)"
    then obtain j where j: "?m \<le> j" "j < length tr" "eval_at tr j g"
      "\<forall>k. ?m \<le> k \<and> k < j \<longrightarrow> eval_at tr k f" by blast
    show "\<exists>j\<ge>i. eval_at tr (min j ?N) g \<and> (\<forall>k. i \<le> k \<and> k < j \<longrightarrow> eval_at tr (min k ?N) f)"
    proof (cases "i \<le> ?N")
      case True
      have "\<forall>k. i \<le> k \<and> k < j \<longrightarrow> eval_at tr (min k ?N) f"
      proof (intro allI impI)
        fix k assume "i \<le> k \<and> k < j"
        with True j(2) n have "?m \<le> k \<and> k < j \<and> min k ?N = k" by (simp add: min_def)
        with j(4) show "eval_at tr (min k ?N) f" by metis
      qed
      moreover from True j n have "i \<le> j \<and> min j ?N = j" by (simp add: min_def)
      ultimately show ?thesis using j(3) by metis
    next
      case False
      with j n have "j = ?N" by (simp add: min_def)
      with j(3) False have "eval_at tr (min i ?N) g" by (simp add: min_def)
      then have "i \<le> i \<and> eval_at tr (min i ?N) g
          \<and> (\<forall>k. i \<le> k \<and> k < i \<longrightarrow> eval_at tr (min k ?N) f)" by auto
      then show ?thesis by blast
    qed
  qed
  then show ?case by (simp add: LUntil list_ex_iff list_all_iff Bex_def Ball_def)
qed simp_all

lemma satisfies_eval_at: "satisfies tr f = (tr \<noteq> [] \<and> eval_at tr 0 f)"
  using holds_eval_at [of tr 0 f] by (auto simp: satisfies_def)

section \<open>The skeleton catalog and the trace builders\<close>

lemmas catalog_defs = LTL_TEMPLATES_STATE_def BASE_LTL_TEMPLATES_STATE_def
  ADDITIONAL_LTL_TEMPLATES_STATE_def
lemmas builder_defs = TRACE_BUILDERS_def BASE_TRACE_BUILDERS_def ADDITIONAL_TRACE_BUILDERS_def
lemmas trace_for_defs = trace_for_NOT_def trace_for_F_NOT_def trace_for_G_NOT_def
  trace_for_X_def trace_for_NOT_A_UNTIL_B_def trace_for_F_AND_def trace_for_G_AND_def
  trace_for_F_OR_def trace_for_G_OR_def trace_for_AND_def trace_for_OR_def G_NOT_AND_traces_def
lemmas consistent_defs = traces_consistent_def SKELETON_FORMULAS_def make_traces_def
  builder_defs trace_for_defs satisfies_eval_at eval_nat_numeral

lemma catalog_keys:
  "map fst LTL_TEMPLATES_STATE =
    [''F_NOT'', ''G_NOT'', ''F_AND'', ''G_AND'', ''F_OR'', ''G_OR'', ''X'', ''U'',
     ''G_IMPL_F'', ''G_NOT_AND'', ''G_IMPL_XXX'', ''U_GF'', ''F_B_IMPL_A_BEFORE'', ''G_IMPL'',
     ''G_AND_PAIR'', ''G_A_AND_G_B_IMPL_NOT_C'', ''G_IMPL_F_IMPL_GF'', ''GF_IMPL_GF'',
     ''GF_OR_GF'', ''FG_NOT'', ''G_NOT_AND_IMPL_F'', ''EXCLUSIVE_ALWAYS_ONE'', ''G_EQ_IMPL_EQ'',
     ''NOT_A_UNTIL_B'', ''G_A_IMPL_XG_NOT_B'', ''A_RELEASES_B'', ''G_NOT_AND_ALT'',
     ''TWO_STEP_TRIGGER'', ''NEXT_EVENTUAL'', ''EVERY_FIFTH_STEP'', ''GF_A_OR_NEXT_B'',
     ''G_ALWAYS_A'', ''A_IMPL_B_WITHIN_1'', ''G_ONE_OF_ABC'', ''A_IMPL_EVENTUAL_B'',
     ''ALMOST_ALWAYS_A'', ''NOT_A_AT_MOST_TWO'', ''A_EVERY_THIRD_STEP'', ''NEXT_FOLLOW'',
     ''EVENTUALLY_BOTH'', ''BOTH_EVENTUAL'', ''STEPWISE_EQUALITY'', ''RESPONSE_UNTIL_OR_ALWAYS'',
     ''UNTIL_OR_ALWAYS'']"
  by (simp add: catalog_defs)

lemma builder_keys:
  "map fst TRACE_BUILDERS =
    [''NOT'', ''F_NOT'', ''G_NOT'', ''X'', ''NOT_A_UNTIL_B'', ''F_AND'', ''G_AND'', ''F_OR'',
     ''G_OR'', ''AND'', ''OR'',
     ''G_IMPL_F'', ''G_NOT_AND'', ''G_IMPL_XXX'', ''U_GF'', ''F_B_IMPL_A_BEFORE'', ''G_IMPL'',
     ''G_AND_PAIR'', ''G_A_AND_G_B_IMPL_NOT_C'', ''G_IMPL_F_IMPL_GF'', ''GF_IMPL_GF'',
     ''GF_OR_GF'', ''FG_NOT'', ''G_NOT_AND_IMPL_F'', ''EXCLUSIVE_ALWAYS_ONE'', ''G_EQ_IMPL_EQ'',
     ''G_A_IMPL_XG_NOT_B'', ''A_RELEASES_B'', ''G_NOT_AND_ALT'',
     ''TWO_STEP_TRIGGER'', ''NEXT_EVENTUAL'', ''EVERY_FIFTH_STEP'', ''GF_A_OR_NEXT_B'',
     ''G_ALWAYS_A'', ''A_IMPL_B_WITHIN_1'', ''G_ONE_OF_ABC'', ''A_IMPL_EVENTUAL_B'',
     ''ALMOST_ALWAYS_A'', ''NOT_A_AT_MOST_TWO'', ''A_EVERY_THIRD_STEP'', ''NEXT_FOLLOW'',
     ''EVENTUALLY_BOTH'', ''BOTH_EVENTUAL'', ''STEPWISE_EQUALITY'', ''RESPONSE_UNTIL_OR_ALWAYS'',
     ''UNTIL_OR_ALWAYS'']"
  by (simp add: builder_defs)

lemma formulas_cover_catalog: "map fst SKELETON_FORMULAS = map fst LTL_TEMPLATES_STATE"
  unfolding catalog_keys by (simp add: SKELETON_FORMULAS_def)

text \<open>
  Claim C4, as amended. Every key of the catalog other than \<open>U\<close> has an entry in the
  table of trace builders, and \<open>_make_traces\<close> returns that entry's two traces; for
  \<open>U\<close> there is no entry and \<open>_make_traces\<close> returns the fallback pair.
\<close>

theorem cataloged_except_U_have_builder:
  "(\<forall>key \<in> set (map fst LTL_TEMPLATES_STATE). key \<noteq> ''U'' \<longrightarrow>
     (\<exists>reads f. map_of TRACE_BUILDERS key = Some (reads, f)
        \<and> make_traces key labels =
            (if length labels < reads then Inl IndexError
             else Inr (f labels True, f labels False))))
   \<and> make_traces ''U'' labels = Inr ([labels], replicate 3 [])"
proof (intro conjI ballI impI)
  fix key
  assume "key \<in> set (map fst LTL_TEMPLATES_STATE)" and "key \<noteq> ''U''"
  then have "key \<in> set (map fst TRACE_BUILDERS)"
    unfolding catalog_keys builder_keys by auto
  then have "map_of TRACE_BUILDERS key \<noteq> None"
    by (simp add: map_of_eq_None_iff)
  then obtain reads f where "map_of TRACE_BUILDERS key = Some (reads, f)"
    by (cases "map_of TRACE_BUILDERS key") auto
  then show "\<exists>reads f. map_of TRACE_BUILDERS key = Some (reads, f)
        \<and> make_traces key labels =
            (if length labels < reads then Inl IndexError
             else Inr (f labels True, f labels False))"
    by (simp add: make_traces_def)
next
  have "''U'' \<notin> set (map fst TRACE_BUILDERS)"
    unfolding builder_keys by simp
  then have "map_of TRACE_BUILDERS ''U'' = None"
    by (simp add: map_of_eq_None_iff)
  then show "make_traces ''U'' labels = Inr ([labels], replicate 3 [])"
    by (simp add: make_traces_def)
qed

theorem cataloged_except_U_have_builder_witness:
  "''G_IMPL_F'' \<in> set (map fst LTL_TEMPLATES_STATE) \<and> ''G_IMPL_F'' \<noteq> ''U''
   \<and> make_traces ''G_IMPL_F'' [''idle'', ''get_help'']
       = Inr ([[''idle''], [], [''get_help'']], [[''idle''], [], []])"
proof -
  have mem: "''G_IMPL_F'' \<in> set (map fst LTL_TEMPLATES_STATE)"
    unfolding catalog_keys by simp
  have look: "map_of TRACE_BUILDERS ''G_IMPL_F''
      = Some (2, \<lambda>L g. if g then [[L ! 0], [], [L ! 1]] else [[L ! 0], [], []])"
    by (simp add: builder_defs)
  have ne: "''G_IMPL_F'' \<noteq> ''U''" by simp
  have "\<exists>reads f. map_of TRACE_BUILDERS ''G_IMPL_F'' = Some (reads, f)
        \<and> make_traces ''G_IMPL_F'' [''idle'', ''get_help''] =
            (if length [''idle'', ''get_help''] < reads then Inl IndexError
             else Inr (f [''idle'', ''get_help''] True, f [''idle'', ''get_help''] False))"
    by (rule cataloged_except_U_have_builder
          [of "[''idle'', ''get_help'']", THEN conjunct1, rule_format, OF mem ne])
  with look mem show ?thesis by auto
qed

text \<open>
  The claim as it is written fails at the catalog's key \<open>U\<close>: it has no trace builder,
  and its traces are the fallback pair.
\<close>

theorem U_has_no_builder:
  "''U'' \<in> set (map fst LTL_TEMPLATES_STATE) \<and> map_of TRACE_BUILDERS ''U'' = None
   \<and> make_traces ''U'' [''idle'', ''get_help''] = Inr ([[''idle'', ''get_help'']], [[], [], []])"
proof -
  have "''U'' \<notin> set (map fst TRACE_BUILDERS)"
    unfolding builder_keys by simp
  then have none: "map_of TRACE_BUILDERS ''U'' = None"
    by (simp add: map_of_eq_None_iff)
  have "''U'' \<in> set (map fst LTL_TEMPLATES_STATE)"
    unfolding catalog_keys by simp
  with none show ?thesis by (simp add: make_traces_def eval_nat_numeral)
qed

section \<open>The trace pairs against the formulas\<close>

lemma consistent_F_NOT:
  assumes "length atoms = 1" and "distinct atoms"
  shows "traces_consistent ''F_NOT'' atoms"
proof -
  from assms(1) obtain a where "atoms = [a]"
    by (auto simp: length_Suc_conv eval_nat_numeral)
  with assms(2) show ?thesis by (auto simp: consistent_defs)
qed

lemma consistent_G_NOT:
  assumes "length atoms = 1" and "distinct atoms"
  shows "traces_consistent ''G_NOT'' atoms"
proof -
  from assms(1) obtain a where "atoms = [a]"
    by (auto simp: length_Suc_conv eval_nat_numeral)
  with assms(2) show ?thesis by (auto simp: consistent_defs)
qed

lemma consistent_F_AND:
  assumes "length atoms = 2" and "distinct atoms"
  shows "traces_consistent ''F_AND'' atoms"
proof -
  from assms(1) obtain a b where "atoms = [a, b]"
    by (auto simp: length_Suc_conv eval_nat_numeral)
  with assms(2) show ?thesis by (auto simp: consistent_defs)
qed

lemma consistent_G_AND:
  assumes "length atoms = 2" and "distinct atoms"
  shows "traces_consistent ''G_AND'' atoms"
proof -
  from assms(1) obtain a b where "atoms = [a, b]"
    by (auto simp: length_Suc_conv eval_nat_numeral)
  with assms(2) show ?thesis by (auto simp: consistent_defs)
qed

lemma consistent_F_OR:
  assumes "length atoms = 2" and "distinct atoms"
  shows "traces_consistent ''F_OR'' atoms"
proof -
  from assms(1) obtain a b where "atoms = [a, b]"
    by (auto simp: length_Suc_conv eval_nat_numeral)
  with assms(2) show ?thesis by (auto simp: consistent_defs)
qed

lemma consistent_G_OR:
  assumes "length atoms = 2" and "distinct atoms"
  shows "traces_consistent ''G_OR'' atoms"
proof -
  from assms(1) obtain a b where "atoms = [a, b]"
    by (auto simp: length_Suc_conv eval_nat_numeral)
  with assms(2) show ?thesis by (auto simp: consistent_defs)
qed

lemma consistent_G_IMPL_F:
  assumes "length atoms = 2" and "distinct atoms"
  shows "traces_consistent ''G_IMPL_F'' atoms"
proof -
  from assms(1) obtain a b where "atoms = [a, b]"
    by (auto simp: length_Suc_conv eval_nat_numeral)
  with assms(2) show ?thesis by (auto simp: consistent_defs)
qed

lemma consistent_G_NOT_AND:
  assumes "length atoms = 2" and "distinct atoms"
  shows "traces_consistent ''G_NOT_AND'' atoms"
proof -
  from assms(1) obtain a b where "atoms = [a, b]"
    by (auto simp: length_Suc_conv eval_nat_numeral)
  with assms(2) show ?thesis by (auto simp: consistent_defs)
qed

lemma consistent_G_IMPL_XXX:
  assumes "length atoms = 2" and "distinct atoms"
  shows "traces_consistent ''G_IMPL_XXX'' atoms"
proof -
  from assms(1) obtain a b where "atoms = [a, b]"
    by (auto simp: length_Suc_conv eval_nat_numeral)
  with assms(2) show ?thesis by (auto simp: consistent_defs)
qed

lemma consistent_U_GF:
  assumes "length atoms = 2" and "distinct atoms"
  shows "traces_consistent ''U_GF'' atoms"
proof -
  from assms(1) obtain a b where "atoms = [a, b]"
    by (auto simp: length_Suc_conv eval_nat_numeral)
  with assms(2) show ?thesis by (auto simp: consistent_defs)
qed

lemma consistent_F_B_IMPL_A_BEFORE:
  assumes "length atoms = 2" and "distinct atoms"
  shows "traces_consistent ''F_B_IMPL_A_BEFORE'' atoms"
proof -
  from assms(1) obtain a b where "atoms = [a, b]"
    by (auto simp: length_Suc_conv eval_nat_numeral)
  with assms(2) show ?thesis by (auto simp: consistent_defs)
qed

lemma consistent_G_IMPL:
  assumes "length atoms = 2" and "distinct atoms"
  shows "traces_consistent ''G_IMPL'' atoms"
proof -
  from assms(1) obtain a b where "atoms = [a, b]"
    by (auto simp: length_Suc_conv eval_nat_numeral)
  with assms(2) show ?thesis by (auto simp: consistent_defs)
qed

lemma consistent_G_AND_PAIR:
  assumes "length atoms = 2" and "distinct atoms"
  shows "traces_consistent ''G_AND_PAIR'' atoms"
proof -
  from assms(1) obtain a b where "atoms = [a, b]"
    by (auto simp: length_Suc_conv eval_nat_numeral)
  with assms(2) show ?thesis by (auto simp: consistent_defs)
qed

lemma consistent_G_IMPL_F_IMPL_GF:
  assumes "length atoms = 3" and "distinct atoms"
  shows "traces_consistent ''G_IMPL_F_IMPL_GF'' atoms"
proof -
  from assms(1) obtain a b c where "atoms = [a, b, c]"
    by (auto simp: length_Suc_conv eval_nat_numeral)
  with assms(2) show ?thesis by (auto simp: consistent_defs)
qed

lemma consistent_GF_IMPL_GF:
  assumes "length atoms = 2" and "distinct atoms"
  shows "traces_consistent ''GF_IMPL_GF'' atoms"
proof -
  from assms(1) obtain a b where "atoms = [a, b]"
    by (auto simp: length_Suc_conv eval_nat_numeral)
  with assms(2) show ?thesis by (auto simp: consistent_defs)
qed

lemma consistent_GF_OR_GF:
  assumes "length atoms = 2" and "distinct atoms"
  shows "traces_consistent ''GF_OR_GF'' atoms"
proof -
  from assms(1) obtain a b where "atoms = [a, b]"
    by (auto simp: length_Suc_conv eval_nat_numeral)
  with assms(2) show ?thesis by (auto simp: consistent_defs)
qed

lemma consistent_FG_NOT:
  assumes "length atoms = 1" and "distinct atoms"
  shows "traces_consistent ''FG_NOT'' atoms"
proof -
  from assms(1) obtain a where "atoms = [a]"
    by (auto simp: length_Suc_conv eval_nat_numeral)
  with assms(2) show ?thesis by (auto simp: consistent_defs)
qed

lemma consistent_G_NOT_AND_IMPL_F:
  assumes "length atoms = 3" and "distinct atoms"
  shows "traces_consistent ''G_NOT_AND_IMPL_F'' atoms"
proof -
  from assms(1) obtain a b c where "atoms = [a, b, c]"
    by (auto simp: length_Suc_conv eval_nat_numeral)
  with assms(2) show ?thesis by (auto simp: consistent_defs)
qed

lemma consistent_EXCLUSIVE_ALWAYS_ONE:
  assumes "length atoms = 2" and "distinct atoms"
  shows "traces_consistent ''EXCLUSIVE_ALWAYS_ONE'' atoms"
proof -
  from assms(1) obtain a b where "atoms = [a, b]"
    by (auto simp: length_Suc_conv eval_nat_numeral)
  with assms(2) show ?thesis by (auto simp: consistent_defs)
qed

lemma consistent_G_EQ_IMPL_EQ:
  assumes "length atoms = 3" and "distinct atoms"
  shows "traces_consistent ''G_EQ_IMPL_EQ'' atoms"
proof -
  from assms(1) obtain a b c where "atoms = [a, b, c]"
    by (auto simp: length_Suc_conv eval_nat_numeral)
  with assms(2) show ?thesis by (auto simp: consistent_defs)
qed

lemma consistent_NOT_A_UNTIL_B:
  assumes "length atoms = 2" and "distinct atoms"
  shows "traces_consistent ''NOT_A_UNTIL_B'' atoms"
proof -
  from assms(1) obtain a b where "atoms = [a, b]"
    by (auto simp: length_Suc_conv eval_nat_numeral)
  with assms(2) show ?thesis by (auto simp: consistent_defs)
qed

lemma consistent_G_A_IMPL_XG_NOT_B:
  assumes "length atoms = 2" and "distinct atoms"
  shows "traces_consistent ''G_A_IMPL_XG_NOT_B'' atoms"
proof -
  from assms(1) obtain a b where "atoms = [a, b]"
    by (auto simp: length_Suc_conv eval_nat_numeral)
  with assms(2) show ?thesis by (auto simp: consistent_defs)
qed

lemma consistent_G_NOT_AND_ALT:
  assumes "length atoms = 2" and "distinct atoms"
  shows "traces_consistent ''G_NOT_AND_ALT'' atoms"
proof -
  from assms(1) obtain a b where "atoms = [a, b]"
    by (auto simp: length_Suc_conv eval_nat_numeral)
  with assms(2) show ?thesis by (auto simp: consistent_defs)
qed

lemma consistent_TWO_STEP_TRIGGER:
  assumes "length atoms = 3" and "distinct atoms"
  shows "traces_consistent ''TWO_STEP_TRIGGER'' atoms"
proof -
  from assms(1) obtain a b c where "atoms = [a, b, c]"
    by (auto simp: length_Suc_conv eval_nat_numeral)
  with assms(2) show ?thesis by (auto simp: consistent_defs)
qed

lemma consistent_NEXT_EVENTUAL:
  assumes "length atoms = 2" and "distinct atoms"
  shows "traces_consistent ''NEXT_EVENTUAL'' atoms"
proof -
  from assms(1) obtain a b where "atoms = [a, b]"
    by (auto simp: length_Suc_conv eval_nat_numeral)
  with assms(2) show ?thesis by (auto simp: consistent_defs)
qed

lemma consistent_GF_A_OR_NEXT_B:
  assumes "length atoms = 2" and "distinct atoms"
  shows "traces_consistent ''GF_A_OR_NEXT_B'' atoms"
proof -
  from assms(1) obtain a b where "atoms = [a, b]"
    by (auto simp: length_Suc_conv eval_nat_numeral)
  with assms(2) show ?thesis by (auto simp: consistent_defs)
qed

lemma consistent_G_ALWAYS_A:
  assumes "length atoms = 1" and "distinct atoms"
  shows "traces_consistent ''G_ALWAYS_A'' atoms"
proof -
  from assms(1) obtain a where "atoms = [a]"
    by (auto simp: length_Suc_conv eval_nat_numeral)
  with assms(2) show ?thesis by (auto simp: consistent_defs)
qed

lemma consistent_A_IMPL_B_WITHIN_1:
  assumes "length atoms = 2" and "distinct atoms"
  shows "traces_consistent ''A_IMPL_B_WITHIN_1'' atoms"
proof -
  from assms(1) obtain a b where "atoms = [a, b]"
    by (auto simp: length_Suc_conv eval_nat_numeral)
  with assms(2) show ?thesis by (auto simp: consistent_defs)
qed

lemma consistent_G_ONE_OF_ABC:
  assumes "length atoms = 3" and "distinct atoms"
  shows "traces_consistent ''G_ONE_OF_ABC'' atoms"
proof -
  from assms(1) obtain a b c where "atoms = [a, b, c]"
    by (auto simp: length_Suc_conv eval_nat_numeral)
  with assms(2) show ?thesis by (auto simp: consistent_defs)
qed

lemma consistent_A_IMPL_EVENTUAL_B:
  assumes "length atoms = 2" and "distinct atoms"
  shows "traces_consistent ''A_IMPL_EVENTUAL_B'' atoms"
proof -
  from assms(1) obtain a b where "atoms = [a, b]"
    by (auto simp: length_Suc_conv eval_nat_numeral)
  with assms(2) show ?thesis by (auto simp: consistent_defs)
qed

lemma consistent_ALMOST_ALWAYS_A:
  assumes "length atoms = 1" and "distinct atoms"
  shows "traces_consistent ''ALMOST_ALWAYS_A'' atoms"
proof -
  from assms(1) obtain a where "atoms = [a]"
    by (auto simp: length_Suc_conv eval_nat_numeral)
  with assms(2) show ?thesis by (auto simp: consistent_defs)
qed

lemma consistent_NEXT_FOLLOW:
  assumes "length atoms = 2" and "distinct atoms"
  shows "traces_consistent ''NEXT_FOLLOW'' atoms"
proof -
  from assms(1) obtain a b where "atoms = [a, b]"
    by (auto simp: length_Suc_conv eval_nat_numeral)
  with assms(2) show ?thesis by (auto simp: consistent_defs)
qed

lemma consistent_EVENTUALLY_BOTH:
  assumes "length atoms = 2" and "distinct atoms"
  shows "traces_consistent ''EVENTUALLY_BOTH'' atoms"
proof -
  from assms(1) obtain a b where "atoms = [a, b]"
    by (auto simp: length_Suc_conv eval_nat_numeral)
  with assms(2) show ?thesis by (auto simp: consistent_defs)
qed

lemma consistent_BOTH_EVENTUAL:
  assumes "length atoms = 2" and "distinct atoms"
  shows "traces_consistent ''BOTH_EVENTUAL'' atoms"
proof -
  from assms(1) obtain a b where "atoms = [a, b]"
    by (auto simp: length_Suc_conv eval_nat_numeral)
  with assms(2) show ?thesis by (auto simp: consistent_defs)
qed

lemma consistent_RESPONSE_UNTIL_OR_ALWAYS:
  assumes "length atoms = 3" and "distinct atoms"
  shows "traces_consistent ''RESPONSE_UNTIL_OR_ALWAYS'' atoms"
proof -
  from assms(1) obtain a b c where "atoms = [a, b, c]"
    by (auto simp: length_Suc_conv eval_nat_numeral)
  with assms(2) show ?thesis by (auto simp: consistent_defs)
qed

lemma consistent_UNTIL_OR_ALWAYS:
  assumes "length atoms = 2" and "distinct atoms"
  shows "traces_consistent ''UNTIL_OR_ALWAYS'' atoms"
proof -
  from assms(1) obtain a b where "atoms = [a, b]"
    by (auto simp: length_Suc_conv eval_nat_numeral)
  with assms(2) show ?thesis by (auto simp: consistent_defs)
qed

text \<open>
  For all but seven of the cataloged skeletons that have a trace builder, the pair of
  traces is consistent with the formula on any distinct atoms.
\<close>

lemma hand_authored_pairs_consistent:
  "\<forall>(key, n, f) \<in> set LTL_TEMPLATES_STATE.
     key \<notin> {''U'', ''X'', ''G_A_AND_G_B_IMPL_NOT_C'', ''A_RELEASES_B'', ''EVERY_FIFTH_STEP'', ''NOT_A_AT_MOST_TWO'', ''A_EVERY_THIRD_STEP'', ''STEPWISE_EQUALITY''} \<longrightarrow>
     (\<forall>atoms. length atoms = n \<and> distinct atoms \<longrightarrow> traces_consistent key atoms)"
  unfolding catalog_defs
  by (simp add: consistent_F_NOT
    consistent_G_NOT
    consistent_F_AND
    consistent_G_AND
    consistent_F_OR
    consistent_G_OR
    consistent_G_IMPL_F
    consistent_G_NOT_AND
    consistent_G_IMPL_XXX
    consistent_U_GF
    consistent_F_B_IMPL_A_BEFORE
    consistent_G_IMPL
    consistent_G_AND_PAIR
    consistent_G_IMPL_F_IMPL_GF
    consistent_GF_IMPL_GF
    consistent_GF_OR_GF
    consistent_FG_NOT
    consistent_G_NOT_AND_IMPL_F
    consistent_EXCLUSIVE_ALWAYS_ONE
    consistent_G_EQ_IMPL_EQ
    consistent_NOT_A_UNTIL_B
    consistent_G_A_IMPL_XG_NOT_B
    consistent_G_NOT_AND_ALT
    consistent_TWO_STEP_TRIGGER
    consistent_NEXT_EVENTUAL
    consistent_GF_A_OR_NEXT_B
    consistent_G_ALWAYS_A
    consistent_A_IMPL_B_WITHIN_1
    consistent_G_ONE_OF_ABC
    consistent_A_IMPL_EVENTUAL_B
    consistent_ALMOST_ALWAYS_A
    consistent_NEXT_FOLLOW
    consistent_EVENTUALLY_BOTH
    consistent_BOTH_EVENTUAL
    consistent_RESPONSE_UNTIL_OR_ALWAYS
    consistent_UNTIL_OR_ALWAYS)

text \<open>
  Claim C3. The pair of traces of the skeleton \<open>G_A_AND_G_B_IMPL_NOT_C\<close>, on the three
  distinct atoms \<open>idle\<close>, \<open>get_help\<close> and \<open>go_home\<close>: its violating trace is the one
  moment in which the first and the third atom are true, and that trace satisfies the
  formula "globally a and globally (b implies not c)".
\<close>

theorem violating_trace_satisfies_formula:
  "make_traces ''G_A_AND_G_B_IMPL_NOT_C'' [''idle'', ''get_help'', ''go_home'']
     = Inr ([[''idle''], [''idle'', ''get_help''], [''idle'']], [[''idle'', ''go_home'']])
   \<and> satisfies [[''idle'', ''go_home'']]
        (LAnd (LGlobally (LAtom ''idle''))
           (LGlobally (LImplies (LAtom ''get_help'') (LNot (LAtom ''go_home'')))))
   \<and> \<not> traces_consistent ''G_A_AND_G_B_IMPL_NOT_C'' [''idle'', ''get_help'', ''go_home'']"
  by (simp add: consistent_defs)

text \<open>The other six skeletons whose pair is not consistent with the formula.\<close>

lemma inconsistent_pairs:
  "\<not> traces_consistent ''X'' [''idle'']"
  "\<not> traces_consistent ''A_RELEASES_B'' [''idle'', ''get_help'']"
  "\<not> traces_consistent ''EVERY_FIFTH_STEP'' [''idle'']"
  "\<not> traces_consistent ''NOT_A_AT_MOST_TWO'' [''idle'']"
  "\<not> traces_consistent ''A_EVERY_THIRD_STEP'' [''idle'']"
  "\<not> traces_consistent ''STEPWISE_EQUALITY'' [''idle'', ''get_help'']"
  by (simp_all add: consistent_defs)

lemma inconsistent_pairs_which:
  "satisfies [[''idle'']] (LNext (LAtom ''idle''))"
  "satisfies [[''get_help''], []]
     (LOr (LUntil (LAtom ''get_help'') (LAnd (LAtom ''get_help'') (LNot (LAtom ''idle''))))
        (LGlobally (LAtom ''get_help'')))"
  "\<not> satisfies [[''idle''], [], [], [], [], [''idle'']]
     (the (map_of SKELETON_FORMULAS ''EVERY_FIFTH_STEP'') [''idle''])"
  "satisfies [[''idle''], [], [], [], [''idle'']]
     (LNot (LGlobally (LNot (LAnd (LAtom ''idle'') (LNext (LAtom ''idle''))))))"
  "satisfies [[''idle''], [], [''idle'']]
     (the (map_of SKELETON_FORMULAS ''A_EVERY_THIRD_STEP'') [''idle''])"
  "\<not> satisfies [[''idle''], [''get_help'']]
     (LGlobally (LIff (LAtom ''idle'') (LNext (LAtom ''get_help''))))"
  by (simp_all add: satisfies_eval_at SKELETON_FORMULAS_def eval_nat_numeral)

section \<open>Sampling\<close>







lemma random_choice_mem:
  "random_choice xs r = Inr (x, r') \<Longrightarrow> x \<in> set xs \<and> r' = rest r"
  by (auto simp: random_choice_def split: if_splits)







section \<open>The steps of one entry\<close>

lemma viable_skeletons_mem:
  assumes "tpl \<in> set (viable_skeletons n)"
  shows "tpl \<in> set LTL_TEMPLATES_STATE \<and> fst (snd tpl) \<le> n"
  using assms by (auto simp: viable_skeletons_def Let_def split: if_splits)

lemma build_entry_for_props_steps:
  assumes "build_entry_for_props svc idx props actions_cfg r = Some (Inr (e, r'))"
  obtains key need f r1 g_ltl m_ltl g_raw props' ids masked good bad
  where "random_choice (viable_skeletons (length props)) r = Inr ((key, need, f), r1)"
    and "ground_formulas (key, need, f) (take need props) = Inr (g_ltl, m_ltl)"
    and "render_sentence svc actions_cfg key (take need props) r1 = Inr (g_raw, r')"
    and "refresh_props g_raw props = Inr props'"
    and "label_sentence svc actions_cfg (py_split g_raw) (take need props') = Some (Inr (ids, masked))"
    and "make_traces key (map (\<lambda>(lbl, info). atom info) (take need props')) = Inr (good, bad)"
    and "e = finalise_entry idx (py_split g_raw) g_ltl m_ltl ids masked (take need props') good bad"
proof -
  from assms obtain key need f r1
    where 1: "random_choice (viable_skeletons (length props)) r = Inr ((key, need, f), r1)"
    by (auto simp: build_entry_for_props_def split: sum.splits)
  from assms 1 obtain g_ltl m_ltl
    where 2: "ground_formulas (key, need, f) (take need props) = Inr (g_ltl, m_ltl)"
    by (auto simp: build_entry_for_props_def split: sum.splits)
  from assms 1 2 obtain g_raw r3
    where 3: "render_sentence svc actions_cfg key (take need props) r1 = Inr (g_raw, r3)"
    by (auto simp: build_entry_for_props_def split: sum.splits)
  from assms 1 2 3 obtain props' where 4: "refresh_props g_raw props = Inr props'"
    by (auto simp: build_entry_for_props_def split: sum.splits)
  from assms 1 2 3 4 obtain segs
    where 5: "map_error (\<lambda>(lbl, info). nl_segment actions_cfg info) (take need props') = Inr segs"
    by (auto simp: build_entry_for_props_def split: sum.splits)
  from assms 1 2 3 4 5 obtain ids masked
    where 6: "label_sentence svc actions_cfg (py_split g_raw) (take need props')
                = Some (Inr (ids, masked))"
    by (auto simp: build_entry_for_props_def split: sum.splits option.splits)
  from assms 1 2 3 4 5 6 obtain good bad
    where 7: "make_traces key (map (\<lambda>(lbl, info). atom info) (take need props'))
                = Inr (good, bad)"
    by (auto simp: build_entry_for_props_def split: sum.splits)
  from assms 1 2 3 4 5 6 7
  have 8: "e = finalise_entry idx (py_split g_raw) g_ltl m_ltl ids masked (take need props') good bad"
    "r' = r3"
    by (auto simp: build_entry_for_props_def)
  show thesis
    using that [of key need f r1 g_ltl m_ltl g_raw props' ids masked good bad] 1 2 3 4 6 7 8
    by simp
qed

lemma map_error_length: "map_error f xs = Inr ys \<Longrightarrow> length ys = length xs"
  by (induction xs arbitrary: ys) (auto split: sum.splits)

lemma map_error_nth:
  "map_error f xs = Inr ys \<Longrightarrow> i < length xs \<Longrightarrow> f (xs ! i) = Inr (ys ! i)"
proof (induction xs arbitrary: ys i)
  case Nil
  then show ?case by simp
next
  case (Cons x xs)
  then show ?case by (cases i) (auto split: sum.splits)
qed

lemma refresh_action_ref_keeps:
  assumes "refresh_action_ref g_raw info = Inr info'"
  shows "action_canon info' = action_canon info \<and> args_canon info' = args_canon info
    \<and> args_ref info' = args_ref info \<and> atom info' = atom info"
  using assms
  by (auto simp: refresh_action_ref_def atom_def Let_def split: list.splits if_splits)

lemma refresh_props_keeps:
  assumes "refresh_props g_raw props = Inr props'"
  shows "map fst props' = map fst props
    \<and> map (\<lambda>(lbl, info). atom info) props' = map (\<lambda>(lbl, info). atom info) props"
  using assms unfolding refresh_props_def
proof (induction props arbitrary: props')
  case Nil
  then show ?case by simp
next
  case (Cons p props)
  obtain lbl info where p: "p = (lbl, info)" by (cases p) auto
  from Cons.prems p obtain info' rest' where
    i: "refresh_action_ref g_raw info = Inr info'"
    and r: "map_error (\<lambda>(lbl, info).
       bind_error (refresh_action_ref g_raw info) (\<lambda>info'. Inr (lbl, info'))) props = Inr rest'"
    and eq: "props' = (lbl, info') # rest'"
    by (auto simp: bind_error_def split: sum.splits)
  from Cons.IH [OF r] refresh_action_ref_keeps [OF i] p eq show ?case by simp
qed

section \<open>The propositions of one example\<close>

lemma dict_set_atoms:
  "set (atoms_of (dict_set props k v)) \<subseteq> insert (atom v) (set (atoms_of props))"
  by (induction props k v rule: dict_set.induct) (auto simp: atoms_of_def)

lemma dict_set_distinct:
  assumes "distinct (atoms_of props)" and "atom v \<notin> set (atoms_of props)"
  shows "distinct (atoms_of (dict_set props k v))"
  using assms
proof (induction props k v rule: dict_set.induct)
  case (1 k v)
  then show ?case by (simp add: atoms_of_def)
next
  case (2 k' v' kvs k v)
  show ?case
  proof (cases "k' = k")
    case True
    with 2 show ?thesis by (auto simp: atoms_of_def)
  next
    case False
    from 2 have d: "distinct (atoms_of kvs)" "atom v \<notin> set (atoms_of kvs)"
      "atom v' \<notin> set (atoms_of kvs)" "atom v \<noteq> atom v'"
      by (auto simp: atoms_of_def)
    from "2.IH" [OF False d(1,2)] have "distinct (atoms_of (dict_set kvs k v))" .
    moreover from dict_set_atoms [of kvs k v] d(3,4)
    have "atom v' \<notin> set (atoms_of (dict_set kvs k v))" by auto
    ultimately show ?thesis using False by (simp add: atoms_of_def)
  qed
qed

lemma sample_fresh_invariant:
  assumes "sample_fresh n objects actions_dict locs actions_cfg lbl st = Inr st'"
    and "fresh_atoms st"
  shows "fresh_atoms st'"
  using assms
proof (induction n arbitrary: st)
  case 0
  then show ?case by simp
next
  case (Suc n)
  obtain props atoms_used r where st: "st = (props, atoms_used, r)" by (cases st) auto
  from Suc.prems(1) obtain verb r1 params a_canon a_ref r2 where
    v: "random_choice (map fst actions_dict) r = Inr (verb, r1)"
    and p: "map_of actions_cfg verb = Some params"
    and a: "sample_arguments params objects locs r1 = Inr ((a_canon, a_ref), r2)"
    unfolding st by (auto simp: bind_error_def split: sum.splits option.splits)
  let ?atm = "if a_canon \<noteq> [] then verb @ ''('' @ py_join '','' a_canon @ '')'' else verb"
  show ?case
  proof (cases "?atm \<in> set atoms_used")
    case True
    with Suc.prems(1) v p a
    have "sample_fresh n objects actions_dict locs actions_cfg lbl (props, atoms_used, r2) = Inr st'"
      unfolding st by (simp add: bind_error_def Let_def)
    moreover from Suc.prems(2) have "fresh_atoms (props, atoms_used, r2)"
      by (simp add: st fresh_atoms_def)
    ultimately show ?thesis by (rule Suc.IH)
  next
    case False
    with Suc.prems(1) v p a obtain v_ref r3 where
      st': "st' = (dict_set props lbl
                      \<lparr>action_canon = verb, action_ref = v_ref,
                        args_canon = a_canon, args_ref = a_ref\<rparr>,
                    ?atm # atoms_used, r3)"
      unfolding st by (auto simp: bind_error_def Let_def split: sum.splits option.splits)
    let ?info = "\<lparr>action_canon = verb, action_ref = v_ref,
                        args_canon = a_canon, args_ref = a_ref\<rparr>"
    have atm: "atom ?info = ?atm" by (simp add: atom_def)
    from Suc.prems(2) have inv: "distinct (atoms_of props)" "set (atoms_of props) \<subseteq> set atoms_used"
      by (simp_all add: st fresh_atoms_def)
    with False atm have "atom ?info \<notin> set (atoms_of props)" by auto
    from dict_set_distinct [OF inv(1) this, of lbl] dict_set_atoms [of props lbl ?info] inv(2) atm
    show ?thesis unfolding st' fresh_atoms_def by auto
  qed
qed

lemma sample_labels_invariant:
  assumes "sample_labels lbls objects actions_dict locs actions_cfg st = Inr st'"
    and "fresh_atoms st"
  shows "fresh_atoms st'"
  using assms
proof (induction lbls arbitrary: st)
  case Nil
  then show ?case by simp
next
  case (Cons lbl lbls)
  from Cons.prems(1) obtain st1 where
    1: "sample_fresh 50 objects actions_dict locs actions_cfg lbl st = Inr st1"
    and 2: "sample_labels lbls objects actions_dict locs actions_cfg st1 = Inr st'"
    by (auto simp: bind_error_def split: sum.splits)
  from sample_fresh_invariant [OF 1 Cons.prems(2)] have "fresh_atoms st1" .
  with 2 show ?case by (rule Cons.IH)
qed

lemma sample_propositions_distinct:
  assumes "sample_propositions objects actions_dict locs actions_cfg max_props r = Inr (props, r')"
  shows "distinct (atoms_of props)"
proof -
  from assms obtain want r2 atoms_used where
    "sample_labels want objects actions_dict locs actions_cfg ([], [], r2)
       = Inr (props, atoms_used, r')"
    by (auto simp: sample_propositions_def bind_error_def Let_def split: sum.splits)
  moreover have "fresh_atoms ([], [], r2)" by (simp add: fresh_atoms_def atoms_of_def)
  ultimately have "fresh_atoms (props, atoms_used, r')" by (rule sample_labels_invariant)
  then show ?thesis by (simp add: fresh_atoms_def)
qed

lemma build_entry_prop_dict:
  assumes "build_entry_for_props svc idx props actions_cfg r = Some (Inr (e, r'))"
  shows "\<exists>need. need \<le> length props \<and> length (prop_dict e) = need
     \<and> map fst (prop_dict e) = map prop_token [1..<Suc need]
     \<and> map (\<lambda>(lbl, info). atom info) (prop_dict e) = take need (atoms_of props)"
proof -
  from assms obtain key need f r1 g_ltl m_ltl g_raw props' ids masked good bad
  where c: "random_choice (viable_skeletons (length props)) r = Inr ((key, need, f), r1)"
    and rf: "refresh_props g_raw props = Inr props'"
    and e: "e = finalise_entry idx (py_split g_raw) g_ltl m_ltl ids masked (take need props') good bad"
    by (rule build_entry_for_props_steps)
  from random_choice_mem [OF c] viable_skeletons_mem [of "(key, need, f)" "length props"]
  have need: "need \<le> length props" by simp
  from refresh_props_keeps [OF rf] have k: "map fst props' = map fst props"
    "atoms_of props' = atoms_of props" by (simp_all add: atoms_of_def)
  from k(1) have len: "length props' = length props" by (metis length_map)
  with need have l: "length (take need props') = need" by simp
  have pd: "prop_dict e = zip (map prop_token [1..<Suc need]) (map snd (take need props'))"
    unfolding e finalise_entry_def Let_def l by simp
  have lp: "length (map prop_token [1..<Suc need]) = length (map snd (take need props'))"
    using l by simp
  have "map (\<lambda>(lbl, info). atom info) (prop_dict e)
      = map atom (map snd (zip (map prop_token [1..<Suc need]) (map snd (take need props'))))"
    unfolding pd by (simp only: map_map comp_def case_prod_unfold)
  also have "\<dots> = map atom (map snd (take need props'))"
    by (simp only: map_snd_zip [OF lp])
  also have "\<dots> = take need (atoms_of props')"
    by (simp add: atoms_of_def take_map case_prod_unfold)
  finally have "map (\<lambda>(lbl, info). atom info) (prop_dict e) = take need (atoms_of props)"
    using k(2) by simp
  moreover have "length (prop_dict e) = need" unfolding pd using l by simp
  moreover have "map fst (prop_dict e) = map prop_token [1..<Suc need]"
    unfolding pd by (simp only: map_fst_zip [OF lp])
  ultimately show ?thesis using need by blast
qed

section \<open>The loop of the dataset\<close>

lemma dataset_loop_invariant:
  assumes run: "dataset_loop svc objects actions_dict locs actions_cfg num_entries max_props
                  dataset r = Some (Inr ds)"
    and start: "\<forall>e \<in> set dataset. Q e"
    and step: "\<And>props r0 r1 idx e r2.
        sample_propositions objects actions_dict locs actions_cfg max_props r0 = Inr (props, r1)
        \<Longrightarrow> build_entry_for_props svc idx props actions_cfg r1 = Some (Inr (e, r2))
        \<Longrightarrow> entry_is_valid e \<Longrightarrow> Q e"
  shows "\<forall>e \<in> set ds. Q e"
proof -
  let ?P = "\<lambda>(s :: nlp) (ob :: (string \<times> string list) list) (ad :: (string \<times> string list) list)
      (lo :: string list) (ac :: (string \<times> string list) list) (n :: nat) (m :: nat)
      (d :: entry list) (rr :: rng) (res :: py_error + entry list).
      s = svc \<and> ob = objects \<and> ad = actions_dict \<and> lo = locs \<and> ac = actions_cfg
      \<and> m = max_props \<and> (\<forall>e \<in> set d. Q e) \<longrightarrow> (\<forall>ds. res = Inr ds \<longrightarrow> (\<forall>e \<in> set ds. Q e))"
  have ind: "?P s ob ad lo ac n m d rr res"
    if IH: "\<And>s ob ad lo ac n m d rr y. loop s ob ad lo ac n m d rr = Some y
              \<Longrightarrow> ?P s ob ad lo ac n m d rr y"
      and body: "(if length d < n then
        (case sample_propositions ob ad lo ac m rr of
           Inl e \<Rightarrow> Some (Inl e)
         | Inr (props, r1) \<Rightarrow>
             (case build_entry_for_props s (length d) props ac r1 of
                None \<Rightarrow> None
              | Some (Inl e) \<Rightarrow> Some (Inl e)
              | Some (Inr (e, r2)) \<Rightarrow>
                  loop s ob ad lo ac n m (if entry_is_valid e then d @ [e] else d) r2))
      else Some (Inr d)) = Some res"
    for loop s ob ad lo ac n m d rr res
  proof (intro impI)
    assume a: "s = svc \<and> ob = objects \<and> ad = actions_dict \<and> lo = locs \<and> ac = actions_cfg
      \<and> m = max_props \<and> (\<forall>e \<in> set d. Q e)"
    show "\<forall>ds. res = Inr ds \<longrightarrow> (\<forall>e \<in> set ds. Q e)"
    proof (cases "length d < n")
      case False
      with body a show ?thesis by auto
    next
      case True
      show ?thesis
      proof (cases "sample_propositions ob ad lo ac m rr")
        case (Inl err)
        with True body show ?thesis by auto
      next
        case sp: (Inr pr)
        obtain props r1 where pr: "pr = (props, r1)" by (cases pr) auto
        show ?thesis
        proof (cases "build_entry_for_props s (length d) props ac r1")
          case None
          with True sp pr body show ?thesis by simp
        next
          case (Some out)
          show ?thesis
          proof (cases out)
            case (Inl err)
            with True sp pr Some body show ?thesis by auto
          next
            case (Inr er)
            obtain e r2 where er: "er = (e, r2)" by (cases er) auto
            let ?next = "if entry_is_valid e then d @ [e] else d"
            from True sp pr Some Inr er body
            have rec: "loop s ob ad lo ac n m ?next r2 = Some res"
              by simp
            have nxt: "\<forall>x \<in> set ?next. Q x"
            proof (cases "entry_is_valid e")
              case False
              with a show ?thesis by simp
            next
              case valid: True
              from sp Some Inr er pr a
              have "Q e" using step [of rr props r1 "length d" e r2] valid by simp
              with a valid show ?thesis by simp
            qed
            from IH [OF rec] a nxt show ?thesis by fast
          qed
        qed
      qed
    qed
  qed
  have "?P svc objects actions_dict locs actions_cfg num_entries max_props dataset r (Inr ds)"
    by (rule dataset_loop.raw_induct [where P = ?P, OF ind run])
  with start show ?thesis by simp
qed

lemma renumber_set:
  assumes "\<forall>e \<in> set ds. Q e" and "\<And>e n. Q e \<Longrightarrow> Q (e\<lparr>id_field := n\<rparr>)"
  shows "\<forall>e \<in> set (renumber ds). Q e"
proof -
  have "\<forall>p \<in> set (enumerate 0 ds). Q (snd p)"
    using assms(1) by (auto simp: enumerate_eq_zip dest: set_zip_rightD)
  with assms(2) show ?thesis by (auto simp: renumber_def)
qed

lemma build_dataset_entries_invariant:
  assumes run: "build_dataset_entries svc objects actions_dict locs actions_cfg num_entries
                  max_props r = Some (Inr ds)"
    and step: "\<And>props r0 r1 idx e r2.
        sample_propositions objects actions_dict locs actions_cfg max_props r0 = Inr (props, r1)
        \<Longrightarrow> build_entry_for_props svc idx props actions_cfg r1 = Some (Inr (e, r2))
        \<Longrightarrow> entry_is_valid e \<Longrightarrow> Q e"
    and ids: "\<And>e n. Q e \<Longrightarrow> Q (e\<lparr>id_field := n\<rparr>)"
  shows "\<forall>e \<in> set ds. Q e"
proof -
  from run obtain ds0 where
    loop: "dataset_loop svc objects actions_dict locs actions_cfg num_entries max_props [] r
             = Some (Inr ds0)"
    and ds: "ds = renumber ds0"
    by (auto simp: build_dataset_entries_def bind_result_def split: option.splits sum.splits)
  have "\<forall>e \<in> set ds0. Q e"
    by (rule dataset_loop_invariant [OF loop _ step]) simp_all
  then show ?thesis unfolding ds by (rule renumber_set) (rule ids)
qed

end
